theory Spec2Isabelle
  imports Complex_Main
begin

section \<open>Python values used by the report code\<close>

text \<open>
  Exceptions are values: \<open>TypeError\<close> is what \<open>sum\<close> and \<open>Decimal(...)\<close> raise on
  \<open>None\<close>, \<open>InvalidOperation\<close> is what \<open>Decimal(...)\<close> raises on text that is not a
  number, \<open>KeyError\<close> is a dictionary lookup of a missing key, and \<open>PayloadTooLarge\<close>
  is the HTTP 413 raised by \<open>abort(413, ...)\<close>.
\<close>

datatype error = TypeError | InvalidOperation | KeyError | PayloadTooLarge

subsection \<open>\<open>decimal.Decimal\<close> in the default context\<close>

text \<open>
  A finite \<open>Decimal\<close> is modelled by its numeric value, a rational. The constructor
  \<open>Decimal(n)\<close> is exact. Every arithmetic operation computes the exact result and
  then rounds it to the context precision of 28 significant digits, ties to even
  (\<open>ROUND_HALF_EVEN\<close>), which is what \<open>Decimal._fix\<close> does. Equality of model values
  is Python's \<open>==\<close> on decimals (numeric; the exponent of the representation and the
  sign of a zero play no part). The exponent limits of the context
  (\<open>Emax = 999999\<close>) are not modelled.
\<close>

definition prec :: int where
  "prec = 28"

text \<open>The number of decimal digits of a positive integer (\<open>len(str(n))\<close>).\<close>

function ndigits :: "int \<Rightarrow> nat" where
  "ndigits n = (if n < 10 then 1 else Suc (ndigits (n div 10)))"
  by pat_completeness auto
termination
  by (relation "measure nat") auto

definition round_half_even :: "rat \<Rightarrow> int" where
  "round_half_even y =
     (let f = \<lfloor>y\<rfloor>; r = y - of_int f
      in if r < 1 / 2 then f
         else if 1 / 2 < r then f + 1
         else if even f then f else f + 1)"

text \<open>The adjusted exponent of a non-zero value: the \<open>e\<close> with \<open>10^e \<le> |x| < 10^(e+1)\<close>.\<close>

definition adjusted :: "rat \<Rightarrow> int" where
  "adjusted x =
     (let (p, q) = quotient_of \<bar>x\<bar>;
          d = int (ndigits p) - int (ndigits q)
      in if power_int 10 d \<le> \<bar>x\<bar> then d else d - 1)"

definition dec_fix :: "rat \<Rightarrow> rat" where
  "dec_fix x =
     (if x = 0 then 0
      else let s = adjusted x - (prec - 1)
           in of_int (round_half_even (x / power_int 10 s)) * power_int 10 s)"

definition dec_add :: "rat \<Rightarrow> rat \<Rightarrow> rat" where
  "dec_add a b = dec_fix (a + b)"

definition dec_mul :: "rat \<Rightarrow> rat \<Rightarrow> rat" where
  "dec_mul a b = dec_fix (a * b)"

definition dec_div :: "rat \<Rightarrow> rat \<Rightarrow> rat" where
  "dec_div a b = dec_fix (a / b)"

text \<open>\<open>Decimal(u or '0.0')\<close>: a missing or zero price becomes \<open>Decimal('0.0')\<close>.\<close>

definition Decimal_or_zero :: "rat option \<Rightarrow> rat" where
  "Decimal_or_zero u = (case u of None \<Rightarrow> 0 | Some p \<Rightarrow> (if p \<noteq> 0 then p else 0))"

text \<open>
  \<open>sum(...)\<close> over quantities: the accumulator starts at the integer 0 and the elements
  are added from left to right; adding \<open>None\<close> raises \<open>TypeError\<close>.
\<close>

fun py_sum :: "int \<Rightarrow> int option list \<Rightarrow> error + int" where
  "py_sum acc [] = Inr acc"
| "py_sum acc (None # qs) = Inl TypeError"
| "py_sum acc (Some q # qs) = py_sum (acc + q) qs"

section \<open>The ledger: rows of \<open>InventoryTransaction\<close> joined with \<open>Request\<close>\<close>

text \<open>
  One row of the join that the query of \<open>calculate_periodic_wac_valuation\<close> reads,
  \<open>InventoryTransaction.query.join(Inventory).outerjoin(Request)\<close>: the transaction's
  columns and the location of the request it refers to (\<open>None\<close> when the outer join
  finds no request, or the request has no location). The inner join keeps the
  transactions whose item is a row of \<open>Inventory\<close>, so a list of rows holds those only;
  the report asks for the ids of rows of \<open>Inventory\<close>. A quantity or a unit price can be
  \<open>NULL\<close> in the table. Timestamps are counted in microseconds, the resolution of
  \<open>datetime\<close>.
\<close>

record txn =
  inventory_id :: int
  quantity :: "int option"
  unit_price :: "rat option"
  transaction_type :: string
  timestamp :: int
  location :: "string option"

text \<open>
  The query on the joined rows: those of the item with \<open>timestamp \<le> end_date\<close>,
  ordered by timestamp ascending (rows with equal timestamps keep the order the table
  holds them in).
\<close>

definition fetch_transactions :: "txn list \<Rightarrow> int \<Rightarrow> int \<Rightarrow> txn list" where
  "fetch_transactions rows iid end_date =
     sort_key timestamp (filter (\<lambda>t. inventory_id t = iid \<and> timestamp t \<le> end_date) rows)"

section \<open>\<open>calculate_periodic_wac_valuation\<close>\<close>

record valuation =
  opening_stock :: int
  purchases :: int
  adjustments :: int
  hq_issues :: int
  jabi_issues :: int
  closing_stock :: int
  period_wac :: rat
  total_value :: rat
  cogs :: rat

text \<open>
  The field \<open>period_wac\<close> is the entry \<open>'unit_price'\<close> of the returned dictionary (the
  name \<open>unit_price\<close> is the transaction's column here).
\<close>

text \<open>The scan \<open>for t in reversed(txns_before)\<close> for the last known price, given the
  reversed list; \<open>Decimal('0.0')\<close> when no entry qualifies.\<close>

fun last_known_price_scan :: "txn list \<Rightarrow> rat" where
  "last_known_price_scan [] = 0"
| "last_known_price_scan (t # ts) =
     (if transaction_type t \<in> set [''initial'', ''purchase'', ''price_update'']
         \<and> unit_price t \<noteq> None
      then (case unit_price t of Some p \<Rightarrow> p | None \<Rightarrow> 0)
      else last_known_price_scan ts)"

text \<open>The opening balance: quantity, value and last known price.\<close>

definition opening_balance :: "txn list \<Rightarrow> error + (int \<times> rat \<times> rat)" where
  "opening_balance txns_before =
     (if txns_before \<noteq> [] then
        (let last_known_price = last_known_price_scan (rev txns_before)
         in case py_sum 0 (map quantity txns_before) of
              Inl e \<Rightarrow> Inl e
            | Inr opening_stock_qty \<Rightarrow>
                Inr (opening_stock_qty,
                     dec_mul (of_int opening_stock_qty) last_known_price,
                     last_known_price))
      else Inr (0, 0, 0))"

text \<open>The first loop: the value of every initial entry of the period is added to the
  cost of goods available.\<close>

fun add_initial_stock :: "rat \<Rightarrow> txn list \<Rightarrow> error + rat" where
  "add_initial_stock c [] = Inr c"
| "add_initial_stock c (t # ts) =
     (case quantity t of
        None \<Rightarrow> Inl TypeError
      | Some q \<Rightarrow>
          add_initial_stock
            (dec_add c (dec_mul (of_int q) (Decimal_or_zero (unit_price t)))) ts)"

text \<open>The second loop over the entries of the period, on the pair
  \<open>(cost_of_goods_available, qty_available)\<close>.\<close>

fun wac_loop :: "rat \<times> int \<Rightarrow> txn list \<Rightarrow> error + (rat \<times> int)" where
  "wac_loop (c, qa) [] = Inr (c, qa)"
| "wac_loop (c, qa) (t # ts) =
     (if transaction_type t \<in> set [''initial'', ''purchase''] then
        (case quantity t of
           None \<Rightarrow> Inl TypeError
         | Some q \<Rightarrow>
             wac_loop (dec_add c (dec_mul (of_int q) (Decimal_or_zero (unit_price t))),
                       qa + q) ts)
      else if transaction_type t = ''price_update'' then
        wac_loop (dec_mul (of_int qa) (Decimal_or_zero (unit_price t)), qa) ts
      else wac_loop (c, qa) ts)"

text \<open>\<open>not t.location\<close> holds for \<open>None\<close> and for the empty string.\<close>

definition no_location :: "txn \<Rightarrow> bool" where
  "no_location t = (case location t of None \<Rightarrow> True | Some l \<Rightarrow> l = [])"

text \<open>\<open>sum(t.quantity for t in txns if P(t))\<close>.\<close>

definition sum_quantity :: "(txn \<Rightarrow> bool) \<Rightarrow> txn list \<Rightarrow> error + int" where
  "sum_quantity P txns = py_sum 0 (map quantity (filter P txns))"

text \<open>The period's cost of goods available and quantity available (both loops).\<close>

definition period_cost :: "rat \<Rightarrow> int \<Rightarrow> txn list \<Rightarrow> error + (rat \<times> int)" where
  "period_cost opening_stock_value opening_stock_qty txns_during =
     (case add_initial_stock opening_stock_value
             (filter (\<lambda>t. transaction_type t = ''initial'') txns_during) of
        Inl e \<Rightarrow> Inl e
      | Inr cost0 \<Rightarrow> wac_loop (cost0, opening_stock_qty) txns_during)"

text \<open>The sums of the period: additions, the three issue sums (Headquarters, Jabi, no
  location) and adjustments, in the order the source computes them.\<close>

definition period_sums :: "txn list \<Rightarrow> error + (int \<times> int \<times> int \<times> int \<times> int)" where
  "period_sums txns_during =
     (case sum_quantity (\<lambda>t. transaction_type t = ''purchase'') txns_during of
        Inl e \<Rightarrow> Inl e
      | Inr purchases_qty \<Rightarrow>
     (case sum_quantity (\<lambda>t. transaction_type t = ''initial'') txns_during of
        Inl e \<Rightarrow> Inl e
      | Inr initial_qty_during \<Rightarrow>
     (case sum_quantity (\<lambda>t. transaction_type t = ''issue''
                              \<and> location t = Some ''Headquarters'') txns_during of
        Inl e \<Rightarrow> Inl e
      | Inr hq_sum \<Rightarrow>
     (case sum_quantity (\<lambda>t. transaction_type t = ''issue''
                              \<and> location t = Some ''Jabi'') txns_during of
        Inl e \<Rightarrow> Inl e
      | Inr jabi_sum \<Rightarrow>
     (case sum_quantity (\<lambda>t. transaction_type t = ''issue'' \<and> no_location t) txns_during of
        Inl e \<Rightarrow> Inl e
      | Inr other_sum \<Rightarrow>
     (case sum_quantity (\<lambda>t. transaction_type t = ''adjustment'') txns_during of
        Inl e \<Rightarrow> Inl e
      | Inr adj \<Rightarrow>
          Inr (purchases_qty + initial_qty_during, hq_sum, jabi_sum, other_sum, adj)))))))"

definition valuation_of :: "int \<Rightarrow> txn list \<Rightarrow> error + valuation" where
  "valuation_of start_date transactions =
     (case opening_balance (filter (\<lambda>t. timestamp t < start_date) transactions) of
        Inl e \<Rightarrow> Inl e
      | Inr (opening_stock_qty, opening_stock_value, last_known_price) \<Rightarrow>
     (case period_cost opening_stock_value opening_stock_qty
             (filter (\<lambda>t. start_date \<le> timestamp t) transactions) of
        Inl e \<Rightarrow> Inl e
      | Inr (cost_of_goods_available, qty_available) \<Rightarrow>
     (case period_sums (filter (\<lambda>t. start_date \<le> timestamp t) transactions) of
        Inl e \<Rightarrow> Inl e
      | Inr (total_additions_qty, hq_sum, jabi_sum, other_sum, adj) \<Rightarrow>
          (let wac = (if qty_available > 0
                      then dec_div cost_of_goods_available (of_int qty_available)
                      else last_known_price);
               total_issued_qty = \<bar>hq_sum\<bar> + \<bar>jabi_sum\<bar> + \<bar>other_sum\<bar>;
               closing_stock_qty = qty_available - total_issued_qty + adj
           in Inr \<lparr> opening_stock = opening_stock_qty,
                    purchases = total_additions_qty,
                    adjustments = adj,
                    hq_issues = \<bar>hq_sum\<bar>,
                    jabi_issues = \<bar>jabi_sum\<bar>,
                    closing_stock = closing_stock_qty,
                    period_wac = wac,
                    total_value = dec_mul (of_int closing_stock_qty) wac,
                    cogs = dec_mul (of_int total_issued_qty) wac \<rparr>))))"

definition calculate_periodic_wac_valuation ::
  "txn list \<Rightarrow> int \<Rightarrow> int \<Rightarrow> int \<Rightarrow> error + valuation" where
  "calculate_periodic_wac_valuation rows iid start_date end_date =
     valuation_of start_date (fetch_transactions rows iid end_date)"

section \<open>The report: \<open>generate_report\<close>\<close>

subsection \<open>Items and filters\<close>

text \<open>
  One row of \<open>Inventory.query.join(Category)\<close>: the item's columns and the name of its
  category. The description can be \<open>NULL\<close>.
\<close>

record inventory =
  inv_id :: int
  item_name :: string
  description :: "string option"
  category_id :: int
  category_name :: string
  created_at :: int

text \<open>What the report reads: the items joined with their categories, and the
  transactions joined with their items and requests.\<close>

record database =
  inventory_rows :: "inventory list"
  transaction_rows :: "txn list"

text \<open>
  The values the request handler stores in the \<open>filters\<close> dictionary: \<open>None\<close>, an
  integer (the two ids) or a string (the location).
\<close>

datatype fval = FNone | FInt int | FStr string

type_synonym filters = "string \<rightharpoonup> fval"

text \<open>The truth value of \<open>filters.get(key)\<close>; a missing key gives \<open>None\<close>.\<close>

definition truthy :: "fval option \<Rightarrow> bool" where
  "truthy v =
     (case v of
        None \<Rightarrow> False
      | Some FNone \<Rightarrow> False
      | Some (FInt n) \<Rightarrow> n \<noteq> 0
      | Some (FStr s) \<Rightarrow> s \<noteq> [])"

text \<open>The SQL comparison of an integer column with \<open>filters[key]\<close>. The handler stores
  integers (or \<open>None\<close>) under the two id keys, converted with \<open>int(...)\<close>, and the
  comparison is then equality of integers. A string under an id key does not occur on
  the handler's path; a database may convert such a string to a number, which is not
  modelled: here a string matches no row.\<close>

definition sql_eq_int :: "int \<Rightarrow> fval option \<Rightarrow> bool" where
  "sql_eq_int c v = (v = Some (FInt c))"

definition item_query :: "inventory list \<Rightarrow> int \<Rightarrow> filters \<Rightarrow> inventory list" where
  "item_query table end_dt flt =
     (let q0 = filter (\<lambda>i. created_at i \<le> end_dt) table;
          q1 = (if truthy (flt ''category_id'')
                then filter (\<lambda>i. sql_eq_int (category_id i) (flt ''category_id'')) q0
                else q0);
          q2 = (if truthy (flt ''item_id'')
                then filter (\<lambda>i. sql_eq_int (inv_id i) (flt ''item_id'')) q1
                else q1)
      in q2)"

subsection \<open>Dictionaries of the report\<close>

text \<open>The values of an item's dictionary: strings, integers and decimals.\<close>

datatype pyval = PStr string | PInt int | PDec rat

type_synonym item_report = "(string \<times> pyval) list"

text \<open>A totals dictionary, its keys in insertion order.\<close>

type_synonym totals = "(string \<times> rat) list"

definition totals_template :: totals where
  "totals_template =
     [(''opening_stock'', 0), (''purchases'', 0), (''adjustments'', 0), (''hq_issues'', 0),
      (''jabi_issues'', 0), (''closing_stock'', 0), (''total_value'', 0)]"

text \<open>\<open>Decimal(value)\<close>. It is applied to the values of the keys of a totals dictionary
  only, which are numbers; on a string that is not a number it raises.\<close>

definition Decimal :: "pyval \<Rightarrow> error + rat" where
  "Decimal v =
     (case v of
        PInt n \<Rightarrow> Inr (of_int n)
      | PDec d \<Rightarrow> Inr d
      | PStr s \<Rightarrow> Inl InvalidOperation)"

definition make_item_report :: "inventory \<Rightarrow> valuation \<Rightarrow> item_report" where
  "make_item_report item v =
     [(''item_name'', PStr (item_name item)),
      (''description'', PStr (case description item of None \<Rightarrow> [] | Some d \<Rightarrow> d)),
      (''unit_price'', PDec (period_wac v)),
      (''category_name'', PStr (category_name item)),
      (''opening_stock'', PInt (opening_stock v)),
      (''purchases'', PInt (purchases v)),
      (''adjustments'', PInt (adjustments v)),
      (''hq_issues'', PInt (hq_issues v)),
      (''jabi_issues'', PInt (jabi_issues v)),
      (''closing_stock'', PInt (closing_stock v)),
      (''total_value'', PDec (total_value v))]"

subsection \<open>The state of the loop over the items\<close>

text \<open>
  The totals dictionaries are objects that the loop mutates in place, so they live in a
  store, a list indexed by address: address 0 holds \<open>totals_template\<close>, address 1 holds
  \<open>grand_totals\<close>, and \<open>category_totals\<close> maps a category name to the address of its
  dictionary. \<open>report_data\<close> maps a category name to the list of its items' dictionaries.
  Both keep their keys in insertion order.
\<close>

record report_state =
  store :: "totals list"
  report_data :: "(string \<times> item_report list) list"
  category_totals :: "(string \<times> nat) list"

definition deref :: "totals list \<Rightarrow> nat \<Rightarrow> totals" where
  "deref h a = (if a < length h then h ! a else [])"

text \<open>\<open>d.copy()\<close>: a new object with the content of the one at \<open>a\<close>; its address is
  returned with the new store.\<close>

definition dict_copy :: "totals list \<Rightarrow> nat \<Rightarrow> nat \<times> totals list" where
  "dict_copy h a = (length h, h @ [deref h a])"

text \<open>The state before the loop: the template, and \<open>grand_totals = totals_template.copy()\<close>.\<close>

definition initial_state :: report_state where
  "initial_state =
     \<lparr> store = snd (dict_copy [totals_template] 0), report_data = [], category_totals = [] \<rparr>"

definition template_addr :: nat where
  "template_addr = 0"

definition grand_addr :: nat where
  "grand_addr = fst (dict_copy [totals_template] 0)"

text \<open>\<open>if key in d: d[key] += Decimal(value)\<close> on the dictionary at address \<open>a\<close>.\<close>

definition add_key :: "string \<Rightarrow> pyval \<Rightarrow> nat \<Rightarrow> totals list \<Rightarrow> error + totals list" where
  "add_key key v a h =
     (case map_of (deref h a) key of
        None \<Rightarrow> Inr h
      | Some cur \<Rightarrow>
          (case Decimal v of
             Inl e \<Rightarrow> Inl e
           | Inr d \<Rightarrow>
               Inr (h[a := map (\<lambda>(k, x). if k = key then (k, dec_add cur d) else (k, x))
                              (deref h a)])))"

text \<open>The loop \<open>for key, value in item_report_data.items()\<close>: first the category's
  totals, then the grand totals.\<close>

fun aggregate_totals ::
  "item_report \<Rightarrow> nat \<Rightarrow> nat \<Rightarrow> totals list \<Rightarrow> error + totals list" where
  "aggregate_totals [] ct gt h = Inr h"
| "aggregate_totals ((key, v) # kvs) ct gt h =
     (case add_key key v ct h of
        Inl e \<Rightarrow> Inl e
      | Inr h1 \<Rightarrow>
          (case add_key key v gt h1 of
             Inl e \<Rightarrow> Inl e
           | Inr h2 \<Rightarrow> aggregate_totals kvs ct gt h2))"

text \<open>\<open>report_data[category_name].append(item_report_data)\<close>.\<close>

definition append_item ::
  "string \<Rightarrow> item_report \<Rightarrow> (string \<times> item_report list) list
     \<Rightarrow> (string \<times> item_report list) list" where
  "append_item c r rd = map (\<lambda>(k, rs). if k = c then (k, rs @ [r]) else (k, rs)) rd"

text \<open>The first steps of the loop body after the valuation: a category seen for the
  first time gets an empty list and a copy of the template.\<close>

definition open_category :: "string \<Rightarrow> report_state \<Rightarrow> report_state" where
  "open_category c st =
     (if c \<notin> set (map fst (report_data st)) then
        (let (a, h) = dict_copy (store st) template_addr
         in \<lparr> store = h,
              report_data = report_data st @ [(c, [])],
              category_totals = category_totals st @ [(c, a)] \<rparr>)
      else st)"

text \<open>The body of the loop over the items. A valuation that raises ends the loop: the
  source has no handler around the call. \<open>category_totals[category_name]\<close> raises
  \<open>KeyError\<close> on a missing key.\<close>

definition process_item ::
  "txn list \<Rightarrow> int \<Rightarrow> int \<Rightarrow> inventory \<Rightarrow> report_state \<Rightarrow> error + report_state" where
  "process_item rows start_dt end_dt item st =
     (case calculate_periodic_wac_valuation rows (inv_id item) start_dt end_dt of
        Inl e \<Rightarrow> Inl e
      | Inr v \<Rightarrow>
          (let r = make_item_report item v;
               st1 = open_category (category_name item) st;
               rd = append_item (category_name item) r (report_data st1)
           in case map_of (category_totals st1) (category_name item) of
                None \<Rightarrow> Inl KeyError
              | Some ct \<Rightarrow>
                  (case aggregate_totals r ct grand_addr (store st1) of
                     Inl e \<Rightarrow> Inl e
                   | Inr h \<Rightarrow>
                       Inr \<lparr> store = h, report_data = rd,
                             category_totals = category_totals st1 \<rparr>)))"

fun items_loop ::
  "txn list \<Rightarrow> int \<Rightarrow> int \<Rightarrow> inventory list \<Rightarrow> report_state \<Rightarrow> error + report_state" where
  "items_loop rows start_dt end_dt [] st = Inr st"
| "items_loop rows start_dt end_dt (item # items) st =
     (case process_item rows start_dt end_dt item st of
        Inl e \<Rightarrow> Inl e
      | Inr st' \<Rightarrow> items_loop rows start_dt end_dt items st')"

text \<open>What the caller gets: the dictionaries, read from the store.\<close>

type_synonym report = "(string \<times> item_report list) list \<times> (string \<times> totals) list \<times> totals"

definition report_of :: "report_state \<Rightarrow> report" where
  "report_of st =
     (report_data st,
      map (\<lambda>(c, a). (c, deref (store st) a)) (category_totals st),
      deref (store st) grand_addr)"

definition generate_report :: "database \<Rightarrow> int \<Rightarrow> int \<Rightarrow> filters \<Rightarrow> error + report" where
  "generate_report db start_dt end_dt flt =
     (let items = item_query (inventory_rows db) end_dt flt in
      if length items > 5000 then Inl PayloadTooLarge
      else if items = [] then Inr ([], [], [])
      else (case items_loop (transaction_rows db) start_dt end_dt items initial_state of
              Inl e \<Rightarrow> Inl e
            | Inr st \<Rightarrow> Inr (report_of st)))"

definition generate_report_include_weekends ::
  "database \<Rightarrow> int \<Rightarrow> int \<Rightarrow> filters \<Rightarrow> error + report" where
  "generate_report_include_weekends db start_dt end_dt flt =
     generate_report db start_dt end_dt flt"

text \<open>The choice of the request handler between the two entry points.\<close>

definition report_for_env :: "string \<Rightarrow> database \<Rightarrow> int \<Rightarrow> int \<Rightarrow> filters \<Rightarrow> error + report" where
  "report_for_env env db start_dt end_dt flt =
     (if env = ''development''
      then generate_report_include_weekends db start_dt end_dt flt
      else generate_report db start_dt end_dt flt)"

text \<open>The filters dictionary the handler builds from the three form fields (an empty
  or missing field is falsy and stored as \<open>None\<close>).\<close>

definition form_filters :: "int option \<Rightarrow> int option \<Rightarrow> string option \<Rightarrow> filters" where
  "form_filters category item loc =
     [''category_id'' \<mapsto> (case category of None \<Rightarrow> FNone | Some n \<Rightarrow> FInt n),
      ''item_id'' \<mapsto> (case item of None \<Rightarrow> FNone | Some n \<Rightarrow> FInt n),
      ''location'' \<mapsto> (case loc of None \<Rightarrow> FNone | Some l \<Rightarrow> if l = [] then FNone else FStr l)]"

section \<open>Notions used to state the properties\<close>

text \<open>A value with at most \<open>k\<close> decimal places: \<open>x * 10^k\<close> is an integer.\<close>

definition decimal_places :: "nat \<Rightarrow> rat \<Rightarrow> bool" where
  "decimal_places k x = (of_int \<lfloor>x * 10 ^ k\<rfloor> = x * 10 ^ k)"

text \<open>The quantity of an entry, read as 0 when it is missing.\<close>

definition signed_quantity :: "txn \<Rightarrow> int" where
  "signed_quantity t = (case quantity t of Some q \<Rightarrow> q | None \<Rightarrow> 0)"




text \<open>An entry of a kind that the second loop adds to cost and quantity.\<close>

definition is_addition :: "txn \<Rightarrow> bool" where
  "is_addition t = (transaction_type t \<in> set [''initial'', ''purchase''])"

text \<open>
  An entry as the valuation expects it: it has a quantity; it is of one of the five
  kinds; a price_update moves no stock; an issue has a quantity that is not positive and
  is located at Headquarters, at Jabi or nowhere.
\<close>

definition regular_entry :: "txn \<Rightarrow> bool" where
  "regular_entry t =
     (case quantity t of
        None \<Rightarrow> False
      | Some q \<Rightarrow>
          transaction_type t = ''initial'' \<or> transaction_type t = ''purchase''
          \<or> transaction_type t = ''adjustment''
          \<or> (transaction_type t = ''price_update'' \<and> q = 0)
          \<or> (transaction_type t = ''issue'' \<and> q \<le> 0
              \<and> (location t = Some ''Headquarters'' \<or> location t = Some ''Jabi''
                  \<or> no_location t)))"

text \<open>The closing stock as the source computes it from the entries before and during
  the window.\<close>

definition closing_formula :: "txn list \<Rightarrow> txn list \<Rightarrow> int" where
  "closing_formula before during =
     sum_list (map signed_quantity before)
     + sum_list (map signed_quantity (filter is_addition during))
     - (\<bar>sum_list (map signed_quantity
            (filter (\<lambda>t. transaction_type t = ''issue'' \<and> location t = Some ''Headquarters'')
               during))\<bar>
        + \<bar>sum_list (map signed_quantity
            (filter (\<lambda>t. transaction_type t = ''issue'' \<and> location t = Some ''Jabi'') during))\<bar>
        + \<bar>sum_list (map signed_quantity
            (filter (\<lambda>t. transaction_type t = ''issue'' \<and> no_location t) during))\<bar>)
     + sum_list (map signed_quantity (filter (\<lambda>t. transaction_type t = ''adjustment'') during))"

text \<open>The number a dictionary value stands for (0 for a string).\<close>

definition num :: "pyval \<Rightarrow> rat" where
  "num v = (case v of PInt n \<Rightarrow> of_int n | PDec d \<Rightarrow> d | PStr s \<Rightarrow> 0)"

text \<open>The number under a key of an item's dictionary (0 when the key is missing).\<close>

definition field :: "string \<Rightarrow> item_report \<Rightarrow> rat" where
  "field k r = (case map_of r k of Some v \<Rightarrow> num v | None \<Rightarrow> 0)"

text \<open>A running sum in \<open>Decimal\<close> arithmetic, added from left to right from 0.\<close>

definition dec_sum :: "rat list \<Rightarrow> rat" where
  "dec_sum xs = foldl dec_add 0 xs"

text \<open>A totals dictionary: under every key of the template, the running sum of that
  field over a list of item dictionaries.\<close>

definition running_totals :: "item_report list \<Rightarrow> totals" where
  "running_totals rs = map (\<lambda>(k, z). (k, dec_sum (map (field k) rs))) totals_template"

text \<open>\<open>if key in d: d[key] += Decimal(value)\<close> as a function on one dictionary.\<close>

definition bump :: "string \<Rightarrow> pyval \<Rightarrow> totals \<Rightarrow> totals" where
  "bump key v tot =
     (case map_of tot key of
        None \<Rightarrow> tot
      | Some cur \<Rightarrow> map (\<lambda>(k, x). if k = key then (k, dec_add cur (num v)) else (k, x)) tot)"

text \<open>All the entries of an item's dictionary added to one totals dictionary.\<close>

definition add_report :: "item_report \<Rightarrow> totals \<Rightarrow> totals" where
  "add_report r tot = fold (\<lambda>(k, v). bump k v) r tot"

text \<open>A value that is a number.\<close>

definition is_num :: "pyval \<Rightarrow> bool" where
  "is_num v = (case v of PStr s \<Rightarrow> False | _ \<Rightarrow> True)"

text \<open>The item dictionaries of one category among the processed (category, dictionary)
  pairs, in order.\<close>

definition group :: "string \<Rightarrow> (string \<times> item_report) list \<Rightarrow> item_report list" where
  "group c processed = map snd (filter (\<lambda>p. fst p = c) processed)"

text \<open>The distinct categories of a list in the order of their first occurrence.\<close>

definition first_seen :: "string list \<Rightarrow> string list" where
  "first_seen cs = rev (remdups (rev cs))"

text \<open>The state of the loop written out for a list of categories and the processed
  pairs.\<close>

definition state_for :: "string list \<Rightarrow> (string \<times> item_report) list \<Rightarrow> report_state" where
  "state_for cats processed =
     \<lparr> store = [totals_template, running_totals (map snd processed)]
                 @ map (\<lambda>c. running_totals (group c processed)) cats,
       report_data = map (\<lambda>c. (c, group c processed)) cats,
       category_totals = zip cats [2 ..< 2 + length cats] \<rparr>"

text \<open>The state after a list of processed pairs.\<close>

definition grouped_state :: "(string \<times> item_report) list \<Rightarrow> report_state" where
  "grouped_state processed = state_for (first_seen (map fst processed)) processed"

text \<open>The (category, dictionary) pair the loop builds for an item.\<close>

definition report_entry :: "txn list \<Rightarrow> int \<Rightarrow> int \<Rightarrow> inventory \<Rightarrow> string \<times> item_report" where
  "report_entry rows s e item =
     (category_name item,
      case calculate_periodic_wac_valuation rows (inv_id item) s e of
        Inr v \<Rightarrow> make_item_report item v
      | Inl err \<Rightarrow> [])"

text \<open>The valuation of an item returns (raises nothing).\<close>

definition returns :: "txn list \<Rightarrow> int \<Rightarrow> int \<Rightarrow> inventory \<Rightarrow> bool" where
  "returns rows s e item =
     (case calculate_periodic_wac_valuation rows (inv_id item) s e of
        Inr v \<Rightarrow> True | Inl err \<Rightarrow> False)"

text \<open>Values that add up without rounding: each has at most \<open>p\<close> decimal places and
  the sum of their absolute values has at most 28 digits.\<close>

definition exact_values :: "nat \<Rightarrow> rat list \<Rightarrow> bool" where
  "exact_values p vs =
     (list_all (decimal_places p) vs \<and> sum_list (map abs vs) * 10 ^ p < 10 ^ 28)"

text \<open>The grand total of a report under a key, and the total of a category under a key
  (\<open>None\<close> when there is no report, no such category or no such key).\<close>

definition grand_total :: "string \<Rightarrow> error + report \<Rightarrow> rat option" where
  "grand_total k res = (case res of Inl e \<Rightarrow> None | Inr (rd, ct, gt) \<Rightarrow> map_of gt k)"

definition category_total :: "string \<Rightarrow> string \<Rightarrow> error + report \<Rightarrow> rat option" where
  "category_total c k res =
     (case res of
        Inl e \<Rightarrow> None
      | Inr (rd, ct, gt) \<Rightarrow> (case map_of ct c of None \<Rightarrow> None | Some tot \<Rightarrow> map_of tot k))"


section \<open>Example ledgers\<close>

text \<open>Rows of two items; item 1 has its only entry after the window that ends at 30.\<close>

definition other_rows :: "txn list" where
  "other_rows = [
     \<lparr>inventory_id = 2, quantity = Some 5, unit_price = Some 3, transaction_type = ''purchase'',
       timestamp = 4, location = None\<rparr>,
     \<lparr>inventory_id = 1, quantity = Some 7, unit_price = Some 2, transaction_type = ''purchase'',
       timestamp = 40, location = None\<rparr>]"


text \<open>Midnight of a day of January, in microseconds from midnight of January 1.\<close>

definition jan :: "int \<Rightarrow> int" where
  "jan d = (d - 1) * 86400000000"

text \<open>The ledger of the specification's scenario: initial stock of 100 at 10 on January 1,
  a purchase of 50 at 12 on January 15, an issue of 30 at Headquarters on January 20.\<close>

definition spec_ledger :: "txn list" where
  "spec_ledger = [
     \<lparr>inventory_id = 1, quantity = Some 100, unit_price = Some 10, transaction_type = ''initial'',
       timestamp = jan 1, location = None\<rparr>,
     \<lparr>inventory_id = 1, quantity = Some 50, unit_price = Some 12, transaction_type = ''purchase'',
       timestamp = jan 15, location = None\<rparr>,
     \<lparr>inventory_id = 1, quantity = Some (- 30), unit_price = None, transaction_type = ''issue'',
       timestamp = jan 20, location = Some ''Headquarters''\<rparr>]"



text \<open>100 units bought at 5 before the window 10 to 20, repriced at 8 inside it.\<close>

definition repricing_rows :: "txn list" where
  "repricing_rows = [
     \<lparr>inventory_id = 1, quantity = Some 100, unit_price = Some 5, transaction_type = ''purchase'',
       timestamp = 1, location = None\<rparr>,
     \<lparr>inventory_id = 1, quantity = Some 0, unit_price = Some 8, transaction_type = ''price_update'',
       timestamp = 15, location = None\<rparr>]"

text \<open>An item with an issue to a request located neither at Headquarters nor at Jabi.\<close>

definition third_location_rows :: "txn list" where
  "third_location_rows = [
     \<lparr>inventory_id = 1, quantity = Some 100, unit_price = Some 10, transaction_type = ''initial'',
       timestamp = 1, location = None\<rparr>,
     \<lparr>inventory_id = 1, quantity = Some (- 30), unit_price = None, transaction_type = ''issue'',
       timestamp = 5, location = Some ''Lagos''\<rparr>]"

text \<open>An item with a purchase stamped exactly at the end, 10, of the window 0 to 10.\<close>

definition boundary_rows :: "txn list" where
  "boundary_rows = [
     \<lparr>inventory_id = 1, quantity = Some 100, unit_price = Some 10, transaction_type = ''initial'',
       timestamp = 1, location = None\<rparr>,
     \<lparr>inventory_id = 1, quantity = Some 100, unit_price = Some 10, transaction_type = ''purchase'',
       timestamp = 10, location = None\<rparr>]"

text \<open>An item, a table of 5001 items and an empty database.\<close>

definition pen :: inventory where
  "pen = \<lparr> inv_id = 1, item_name = ''Pen'', description = None, category_id = 3,
           category_name = ''Stationery'', created_at = 0 \<rparr>"

definition big_db :: database where
  "big_db = \<lparr> inventory_rows = replicate 5001 pen, transaction_rows = [] \<rparr>"

definition empty_db :: database where
  "empty_db = \<lparr> inventory_rows = [], transaction_rows = [] \<rparr>"

text \<open>A second item, of another category.\<close>

definition toner :: inventory where
  "toner = \<lparr> inv_id = 2, item_name = ''Toner'', description = Some ''Black'', category_id = 4,
             category_name = ''Consumables'', created_at = 0 \<rparr>"

text \<open>Two items; the only entry of the first has no quantity (\<open>NULL\<close>), the second
  has a regular purchase.\<close>

definition malformed_db :: database where
  "malformed_db =
     \<lparr> inventory_rows = [pen, toner],
       transaction_rows = [
         \<lparr>inventory_id = 1, quantity = None, unit_price = Some 2,
           transaction_type = ''purchase'', timestamp = 5, location = None\<rparr>,
         \<lparr>inventory_id = 2, quantity = Some 10, unit_price = Some 3,
           transaction_type = ''purchase'', timestamp = 5, location = None\<rparr>] \<rparr>"

text \<open>The same two items with regular purchases.\<close>

definition stock_db :: database where
  "stock_db =
     \<lparr> inventory_rows = [pen, toner],
       transaction_rows = [
         \<lparr>inventory_id = 1, quantity = Some 4, unit_price = Some 2,
           transaction_type = ''purchase'', timestamp = 5, location = None\<rparr>,
         \<lparr>inventory_id = 2, quantity = Some 10, unit_price = Some 3,
           transaction_type = ''purchase'', timestamp = 5, location = None\<rparr>] \<rparr>"

text \<open>A third item, of the category of the first.\<close>

definition stapler :: inventory where
  "stapler = \<lparr> inv_id = 3, item_name = ''Stapler'', description = None, category_id = 3,
               category_name = ''Stationery'', created_at = 0 \<rparr>"

text \<open>Three items: the first and the third hold one unit after buying 1 at 10 and 2 at 5
  and issuing 2 (a unit price of 20/3), the second holds 7 units bought at 10.\<close>

definition rounding_db :: database where
  "rounding_db =
     \<lparr> inventory_rows = [pen, toner, stapler],
       transaction_rows = [
         \<lparr>inventory_id = 1, quantity = Some 1, unit_price = Some 10,
           transaction_type = ''purchase'', timestamp = 1, location = None\<rparr>,
         \<lparr>inventory_id = 1, quantity = Some 2, unit_price = Some 5,
           transaction_type = ''purchase'', timestamp = 2, location = None\<rparr>,
         \<lparr>inventory_id = 1, quantity = Some (- 2), unit_price = None,
           transaction_type = ''issue'', timestamp = 3, location = Some ''Headquarters''\<rparr>,
         \<lparr>inventory_id = 2, quantity = Some 7, unit_price = Some 10,
           transaction_type = ''purchase'', timestamp = 1, location = None\<rparr>,
         \<lparr>inventory_id = 3, quantity = Some 1, unit_price = Some 10,
           transaction_type = ''purchase'', timestamp = 1, location = None\<rparr>,
         \<lparr>inventory_id = 3, quantity = Some 2, unit_price = Some 5,
           transaction_type = ''purchase'', timestamp = 2, location = None\<rparr>,
         \<lparr>inventory_id = 3, quantity = Some (- 2), unit_price = None,
           transaction_type = ''issue'', timestamp = 3, location = Some ''Headquarters''\<rparr>] \<rparr>"


section \<open>Decimal rounding: when it is exact\<close>

declare ndigits.simps [simp del]

lemma ndigits_pos: "0 < ndigits n"
  by (subst ndigits.simps) simp

lemma ndigits_bounds: "0 < n \<Longrightarrow> 10 ^ (ndigits n - 1) \<le> n \<and> n < 10 ^ ndigits n"
proof (induction n rule: ndigits.induct)
  case (1 n)
  show ?case
  proof (cases "n < 10")
    case True
    with "1.prems" show ?thesis by (simp add: ndigits.simps)
  next
    case False
    then have pos: "0 < n div 10" by simp
    from "1.IH"[OF False pos]
    have lo: "10 ^ (ndigits (n div 10) - 1) \<le> n div 10" and hi: "n div 10 < 10 ^ ndigits (n div 10)"
      by simp_all
    have nd: "ndigits n = Suc (ndigits (n div 10))" using False by (subst ndigits.simps) simp
    obtain m where m: "ndigits (n div 10) = Suc m"
      using ndigits_pos[of "n div 10"] by (cases "ndigits (n div 10)") simp_all
    have "10 * 10 ^ (ndigits (n div 10) - 1) \<le> 10 * (n div 10)" using lo by simp
    also have "\<dots> \<le> n" by simp
    finally have a: "10 ^ (ndigits n - 1) \<le> n"
      by (simp add: nd m)
    have "n < 10 * (n div 10) + 10" by presburger
    also have "\<dots> \<le> 10 * 10 ^ ndigits (n div 10)" using hi by simp
    finally have b: "n < 10 ^ ndigits n" by (simp add: nd)
    from a b show ?thesis by simp
  qed
qed

lemma adjusted_le:
  assumes "x \<noteq> 0"
  shows "power_int 10 (adjusted x) \<le> \<bar>x\<bar>"
proof -
  obtain p q where pq: "quotient_of \<bar>x\<bar> = (p, q)" by (cases "quotient_of \<bar>x\<bar>")
  have q: "0 < q" using quotient_of_denom_pos[OF pq] .
  have xeq: "\<bar>x\<bar> = of_int p / of_int q" using quotient_of_div[OF pq] .
  have "0 < \<bar>x\<bar>" using assms by simp
  then have p: "0 < p" using q xeq by (simp add: zero_less_divide_iff)
  define a where "a = ndigits p"
  define b where "b = ndigits q"
  have a1: "1 \<le> a" using ndigits_pos[of p] by (simp add: a_def)
  have lo: "10 ^ (a - 1) \<le> p" using ndigits_bounds[of p] p by (simp add: a_def)
  have hi: "q < 10 ^ b" using ndigits_bounds[of q] q by (simp add: b_def)
  have lo': "(10::rat) ^ (a - 1) \<le> of_int p"
  proof -
    have "(of_int (10 ^ (a - 1)) :: rat) \<le> of_int p" using lo by (simp only: of_int_le_iff)
    then show ?thesis by simp
  qed
  have hi': "(of_int q :: rat) \<le> 10 ^ b"
  proof -
    have "(of_int q :: rat) \<le> of_int (10 ^ b)" using hi by (simp only: of_int_le_iff less_imp_le)
    then show ?thesis by simp
  qed
  have pw: "power_int (10::rat) (int a - int b - 1) = 10 ^ (a - 1) / 10 ^ b"
  proof -
    have "int a - int b - 1 = int (a - 1) - int b" using a1 by simp
    then have "power_int (10::rat) (int a - int b - 1) = power_int 10 (int (a - 1) - int b)"
      by (rule arg_cong)
    also have "\<dots> = power_int 10 (int (a - 1)) / power_int 10 (int b)"
      by (rule power_int_diff) simp
    finally show ?thesis by (simp only: power_int_of_nat)
  qed
  have low: "power_int (10::rat) (int a - int b - 1) \<le> \<bar>x\<bar>"
  proof -
    have "(10::rat) ^ (a - 1) / 10 ^ b \<le> of_int p / 10 ^ b"
      using lo' by (simp add: divide_right_mono)
    also have "\<dots> \<le> of_int p / of_int q"
      using hi' p q by (simp add: frac_le)
    finally show ?thesis by (simp add: pw xeq)
  qed
  show ?thesis
    using low by (simp add: adjusted_def pq Let_def a_def b_def)
qed

lemma round_half_even_of_int: "round_half_even (of_int m) = m"
  by (simp add: round_half_even_def)

lemma dec_fix_exact:
  assumes pl: "decimal_places k x" and bd: "\<bar>x\<bar> * 10 ^ k < 10 ^ 28"
  shows "dec_fix x = x"
proof (cases "x = 0")
  case True
  then show ?thesis by (simp add: dec_fix_def)
next
  case False
  define n where "n = \<lfloor>x * 10 ^ k\<rfloor>"
  have xn: "x * 10 ^ k = of_int n" using pl unfolding decimal_places_def n_def by (rule sym)
  have x: "x = of_int n * power_int 10 (- int k)"
    using xn by (simp add: power_int_minus field_simps)
  define s where "s = adjusted x - (prec - 1)"
  have "power_int 10 (adjusted x) \<le> \<bar>x\<bar>" using adjusted_le[OF False] .
  also have "\<dots> < 10 ^ 28 / 10 ^ k" using bd by (simp add: field_simps)
  also have "\<dots> = power_int (10::rat) (28 - int k)" by (simp add: power_int_diff)
  finally have lt: "power_int (10::rat) (adjusted x) < power_int 10 (28 - int k)" .
  have "adjusted x < 28 - int k"
  proof (rule ccontr)
    assume "\<not> adjusted x < 28 - int k"
    then have "28 - int k \<le> adjusted x" by simp
    then have "power_int (10::rat) (28 - int k) \<le> power_int 10 (adjusted x)"
      by (rule power_int_increasing) simp
    with lt show False by simp
  qed
  then have sk: "s \<le> - int k" by (simp add: s_def prec_def)
  define j where "j = nat (- int k - s)"
  have js: "- int k = s + int j" using sk by (simp add: j_def)
  have quot: "x / power_int 10 s = of_int (n * 10 ^ j)"
    by (simp add: x js power_int_add)
  have "dec_fix x = of_int (round_half_even (x / power_int 10 s)) * power_int 10 s"
    using False by (simp add: dec_fix_def s_def Let_def)
  also have "\<dots> = of_int (n * 10 ^ j) * power_int 10 s"
    by (simp only: quot round_half_even_of_int)
  also have "\<dots> = x" by (simp add: x js power_int_add)
  finally show ?thesis .
qed

section \<open>Auxiliary facts about the valuation\<close>

lemma decimal_places_iff: "decimal_places k x \<longleftrightarrow> x * 10 ^ k \<in> \<int>"
  unfolding decimal_places_def
  by (metis Ints_of_int of_int_floor)

lemma decimal_places_0 [simp]: "decimal_places k 0"
  by (simp add: decimal_places_iff)

lemma decimal_places_add: "decimal_places k x \<Longrightarrow> decimal_places k y \<Longrightarrow> decimal_places k (x + y)"
  by (simp add: decimal_places_iff distrib_right)

lemma decimal_places_int_mult: "decimal_places k y \<Longrightarrow> decimal_places k (of_int n * y)"
  by (simp add: decimal_places_iff mult.assoc)

lemma dec_add_exact:
  "decimal_places k x \<Longrightarrow> decimal_places k y \<Longrightarrow> (\<bar>x\<bar> + \<bar>y\<bar>) * 10 ^ k < 10 ^ 28
    \<Longrightarrow> dec_add x y = x + y"
  unfolding dec_add_def
proof (rule dec_fix_exact[of k])
  assume "decimal_places k x" "decimal_places k y"
  then show "decimal_places k (x + y)" by (rule decimal_places_add)
next
  assume b: "(\<bar>x\<bar> + \<bar>y\<bar>) * 10 ^ k < 10 ^ 28"
  have "\<bar>x + y\<bar> * 10 ^ k \<le> (\<bar>x\<bar> + \<bar>y\<bar>) * 10 ^ k"
    by (rule mult_right_mono) simp_all
  from this b show "\<bar>x + y\<bar> * 10 ^ k < 10 ^ 28" by (rule le_less_trans)
qed

lemma dec_mul_int_exact:
  "decimal_places k y \<Longrightarrow> \<bar>of_int n * y\<bar> * 10 ^ k < 10 ^ 28
    \<Longrightarrow> dec_mul (of_int n) y = of_int n * y"
  unfolding dec_mul_def
  by (rule dec_fix_exact[of k]) (simp_all add: decimal_places_int_mult)

lemma dec_fix_0 [simp]: "dec_fix 0 = 0"
  by (simp add: dec_fix_def)

lemma dec_mul_0 [simp]: "dec_mul 0 y = 0" "dec_mul x 0 = 0"
  by (simp_all add: dec_mul_def)

lemma py_sum_present:
  "\<forall>t \<in> set ts. quantity t \<noteq> None \<Longrightarrow>
     py_sum acc (map quantity ts) = Inr (acc + sum_list (map signed_quantity ts))"
proof (induction ts arbitrary: acc)
  case Nil
  then show ?case by simp
next
  case (Cons t ts)
  then obtain q where q: "quantity t = Some q" by auto
  with Cons show ?case by (simp add: signed_quantity_def)
qed

lemma py_sum_absent:
  "\<exists>t \<in> set ts. quantity t = None \<Longrightarrow> py_sum acc (map quantity ts) = Inl TypeError"
proof (induction ts arbitrary: acc)
  case Nil
  then show ?case by simp
next
  case (Cons t ts)
  then show ?case by (cases "quantity t") auto
qed

lemma sum_quantity_present:
  "\<forall>t \<in> set ts. P t \<longrightarrow> quantity t \<noteq> None \<Longrightarrow>
     sum_quantity P ts = Inr (sum_list (map signed_quantity (filter P ts)))"
  unfolding sum_quantity_def using py_sum_present[of "filter P ts" 0] by simp



lemma sum_list_insort_key:
  "sum_list (map f (insort_key k x xs)) = (f x :: int) + sum_list (map f xs)"
  by (induction xs) simp_all

lemma sum_list_sort_key:
  "sum_list (map f (sort_key k xs)) = sum_list (map (f :: 'a \<Rightarrow> int) xs)"
  by (induction xs) (simp_all add: sum_list_insort_key)

lemma opening_balance_present:
  assumes "\<forall>t \<in> set before. quantity t \<noteq> None"
  shows "opening_balance before =
           Inr (sum_list (map signed_quantity before),
                dec_mul (of_int (sum_list (map signed_quantity before)))
                  (last_known_price_scan (rev before)),
                last_known_price_scan (rev before))"
proof (cases "before = []")
  case True
  then show ?thesis by (simp add: opening_balance_def)
next
  case False
  then show ?thesis
    using py_sum_present[OF assms, of 0] by (simp add: opening_balance_def Let_def)
qed

lemma set_fetch_transactions:
  "set (fetch_transactions rows iid end_date) =
     {t \<in> set rows. inventory_id t = iid \<and> timestamp t \<le> end_date}"
  by (auto simp: fetch_transactions_def)


lemma filter_fetch_transactions:
  "filter P (fetch_transactions rows iid end_date) =
     sort_key timestamp (filter (\<lambda>t. P t \<and> inventory_id t = iid \<and> timestamp t \<le> end_date) rows)"
  by (simp add: fetch_transactions_def filter_sort conj_commute conj_left_commute)

lemma sum_filter_fetch_transactions:
  "sum_list (map signed_quantity (filter P (fetch_transactions rows iid end_date))) =
     sum_list (map signed_quantity
       (filter (\<lambda>t. P t \<and> inventory_id t = iid \<and> timestamp t \<le> end_date) rows))"
  by (simp add: filter_fetch_transactions sum_list_sort_key)



section \<open>The two cost loops without rounding\<close>

lemma fits_mono:
  "a \<le> b \<Longrightarrow> b * 10 ^ k < (10::rat) ^ 28 \<Longrightarrow> a * 10 ^ k < 10 ^ 28"
proof -
  assume ab: "a \<le> b" and b: "b * 10 ^ k < (10::rat) ^ 28"
  from ab have "a * 10 ^ k \<le> b * 10 ^ k" by (rule mult_right_mono) simp
  from this b show ?thesis by (rule le_less_trans)
qed





lemma wac_loop_append:
  "wac_loop (c, qa) (xs @ ys) =
     (case wac_loop (c, qa) xs of Inl e \<Rightarrow> Inl e | Inr s \<Rightarrow> wac_loop s ys)"
proof (induction xs arbitrary: c qa)
  case Nil
  then show ?case by simp
next
  case (Cons t xs)
  then show ?case by (cases "quantity t") simp_all
qed




section \<open>Opening and closing stock of a valuation\<close>

lemma add_initial_stock_returns:
  "\<forall>t \<in> set ts. quantity t \<noteq> None \<Longrightarrow> \<exists>c'. add_initial_stock c ts = Inr c'"
proof (induction ts arbitrary: c)
  case Nil
  then show ?case by simp
next
  case (Cons t ts)
  then obtain q where "quantity t = Some q" by auto
  with Cons show ?case by simp
qed

lemma wac_loop_quantity:
  "\<forall>t \<in> set ts. is_addition t \<longrightarrow> quantity t \<noteq> None \<Longrightarrow>
     \<exists>c'. wac_loop (c, qa) ts =
            Inr (c', qa + sum_list (map signed_quantity (filter is_addition ts)))"
proof (induction ts arbitrary: c qa)
  case Nil
  then show ?case by simp
next
  case (Cons t ts)
  show ?case
  proof (cases "is_addition t")
    case True
    with Cons.prems obtain q where q: "quantity t = Some q" by auto
    from Cons.prems have "\<forall>t \<in> set ts. is_addition t \<longrightarrow> quantity t \<noteq> None" by simp
    from Cons.IH[OF this]
    obtain c' where "wac_loop (dec_add c (dec_mul (of_int q) (Decimal_or_zero (unit_price t))),
                       qa + q) ts =
        Inr (c', qa + q + sum_list (map signed_quantity (filter is_addition ts)))"
      by blast
    moreover have ty: "transaction_type t \<in> set [''initial'', ''purchase'']"
      using True by (simp add: is_addition_def)
    moreover have "signed_quantity t = q" by (simp add: signed_quantity_def q)
    ultimately show ?thesis using True q by (simp add: add.assoc)
  next
    case False
    from Cons.prems have p: "\<forall>t \<in> set ts. is_addition t \<longrightarrow> quantity t \<noteq> None" by simp
    have nt: "\<not> transaction_type t \<in> set [''initial'', ''purchase'']"
      using False by (simp add: is_addition_def)
    show ?thesis
    proof (cases "transaction_type t = ''price_update''")
      case True
      from Cons.IH[OF p, of "dec_mul (of_int qa) (Decimal_or_zero (unit_price t))" qa]
      show ?thesis using False True nt by simp
    next
      case nu: False
      from Cons.IH[OF p, of c qa]
      show ?thesis using False nu nt by simp
    qed
  qed
qed

lemma period_cost_quantity:
  assumes "\<forall>t \<in> set ts. quantity t \<noteq> None"
  shows "\<exists>c'. period_cost ov oq ts =
            Inr (c', oq + sum_list (map signed_quantity (filter is_addition ts)))"
proof -
  have "\<forall>t \<in> set (filter (\<lambda>t. transaction_type t = ''initial'') ts). quantity t \<noteq> None"
    using assms by simp
  from add_initial_stock_returns[OF this]
  obtain c0 where c0: "add_initial_stock ov (filter (\<lambda>t. transaction_type t = ''initial'') ts)
                        = Inr c0"
    by blast
  have "\<forall>t \<in> set ts. is_addition t \<longrightarrow> quantity t \<noteq> None" using assms by simp
  from wac_loop_quantity[OF this, of c0 oq] show ?thesis
    by (simp add: period_cost_def c0)
qed

lemma period_sums_present:
  assumes "\<forall>t \<in> set ts. quantity t \<noteq> None"
  shows "period_sums ts =
     Inr (sum_list (map signed_quantity (filter (\<lambda>t. transaction_type t = ''purchase'') ts))
          + sum_list (map signed_quantity (filter (\<lambda>t. transaction_type t = ''initial'') ts)),
          sum_list (map signed_quantity
            (filter (\<lambda>t. transaction_type t = ''issue'' \<and> location t = Some ''Headquarters'') ts)),
          sum_list (map signed_quantity
            (filter (\<lambda>t. transaction_type t = ''issue'' \<and> location t = Some ''Jabi'') ts)),
          sum_list (map signed_quantity
            (filter (\<lambda>t. transaction_type t = ''issue'' \<and> no_location t) ts)),
          sum_list (map signed_quantity
            (filter (\<lambda>t. transaction_type t = ''adjustment'') ts)))"
proof -
  have s: "sum_quantity P ts = Inr (sum_list (map signed_quantity (filter P ts)))" for P
    by (rule sum_quantity_present) (use assms in simp)
  show ?thesis unfolding period_sums_def by (simp add: s)
qed

lemma valuation_of_stock:
  assumes "\<forall>t \<in> set txns. quantity t \<noteq> None"
  shows "\<exists>v. valuation_of s txns = Inr v
           \<and> opening_stock v = sum_list (map signed_quantity (filter (\<lambda>t. timestamp t < s) txns))
           \<and> closing_stock v = closing_formula (filter (\<lambda>t. timestamp t < s) txns)
                                  (filter (\<lambda>t. s \<le> timestamp t) txns)"
proof -
  let ?before = "filter (\<lambda>t. timestamp t < s) txns"
  let ?during = "filter (\<lambda>t. s \<le> timestamp t) txns"
  have pb: "\<forall>t \<in> set ?before. quantity t \<noteq> None" using assms by simp
  have pd: "\<forall>t \<in> set ?during. quantity t \<noteq> None" using assms by simp
  note ob = opening_balance_present[OF pb]
  from period_cost_quantity[OF pd]
  obtain c' where pc: "period_cost
      (dec_mul (of_int (sum_list (map signed_quantity ?before)))
         (last_known_price_scan (rev ?before)))
      (sum_list (map signed_quantity ?before)) ?during =
      Inr (c', sum_list (map signed_quantity ?before)
               + sum_list (map signed_quantity (filter is_addition ?during)))"
    by blast
  note ps = period_sums_present[OF pd]
  show ?thesis
    unfolding valuation_of_def ob
    by (simp add: pc ps Let_def closing_formula_def del: filter_filter)
qed

lemma sum_list_split_timestamp:
  "sum_list (map f (filter (\<lambda>t. timestamp t < s) ts))
   + sum_list (map f (filter (\<lambda>t. s \<le> timestamp t) ts)) = (sum_list (map f ts) :: int)"
  by (induction ts) auto

lemma regular_issue_sum_nonpos:
  "\<forall>t \<in> set ts. regular_entry t \<Longrightarrow>
     sum_list (map signed_quantity (filter (\<lambda>t. transaction_type t = ''issue'' \<and> P t) ts)) \<le> 0"
proof (induction ts)
  case Nil
  then show ?case by simp
next
  case (Cons t ts)
  then have ih: "sum_list (map signed_quantity
      (filter (\<lambda>t. transaction_type t = ''issue'' \<and> P t) ts)) \<le> 0"
    by simp
  from Cons.prems have "regular_entry t" by simp
  then have "transaction_type t = ''issue'' \<Longrightarrow> signed_quantity t \<le> 0"
    by (auto simp: regular_entry_def signed_quantity_def split: option.splits)
  with ih show ?case by auto
qed

lemma regular_closing_formula:
  assumes "\<forall>t \<in> set during. regular_entry t"
  shows "closing_formula before during =
           sum_list (map signed_quantity before) + sum_list (map signed_quantity during)"
proof -
  let ?hq = "sum_list (map signed_quantity
       (filter (\<lambda>t. transaction_type t = ''issue'' \<and> location t = Some ''Headquarters'') during))"
  let ?jabi = "sum_list (map signed_quantity
       (filter (\<lambda>t. transaction_type t = ''issue'' \<and> location t = Some ''Jabi'') during))"
  let ?other = "sum_list (map signed_quantity
       (filter (\<lambda>t. transaction_type t = ''issue'' \<and> no_location t) during))"
  let ?adj = "sum_list (map signed_quantity
       (filter (\<lambda>t. transaction_type t = ''adjustment'') during))"
  let ?add = "sum_list (map signed_quantity (filter is_addition during))"
  have n: "?hq \<le> 0" "?jabi \<le> 0" "?other \<le> 0"
    using assms by (rule regular_issue_sum_nonpos)+
  have part: "sum_list (map signed_quantity during) = ?add + ?hq + ?jabi + ?other + ?adj"
    using assms
  proof (induction during)
    case Nil
    then show ?case by simp
  next
    case (Cons t ts)
    then have r: "regular_entry t" by simp
    from Cons have ih: "sum_list (map signed_quantity ts) =
        sum_list (map signed_quantity (filter is_addition ts))
        + sum_list (map signed_quantity
            (filter (\<lambda>t. transaction_type t = ''issue'' \<and> location t = Some ''Headquarters'') ts))
        + sum_list (map signed_quantity
            (filter (\<lambda>t. transaction_type t = ''issue'' \<and> location t = Some ''Jabi'') ts))
        + sum_list (map signed_quantity
            (filter (\<lambda>t. transaction_type t = ''issue'' \<and> no_location t) ts))
        + sum_list (map signed_quantity
            (filter (\<lambda>t. transaction_type t = ''adjustment'') ts))"
      by simp
    from r consider
        (add) "is_addition t" "transaction_type t \<noteq> ''issue''"
          "transaction_type t \<noteq> ''adjustment''"
      | (adj) "transaction_type t = ''adjustment''" "\<not> is_addition t"
      | (upd) "transaction_type t = ''price_update''" "signed_quantity t = 0"
          "\<not> is_addition t"
      | (hq) "transaction_type t = ''issue''" "location t = Some ''Headquarters''"
          "\<not> is_addition t" "\<not> no_location t"
      | (jabi) "transaction_type t = ''issue''" "location t = Some ''Jabi''"
          "\<not> is_addition t" "\<not> no_location t"
      | (none) "transaction_type t = ''issue''" "no_location t" "\<not> is_addition t"
          "location t \<noteq> Some ''Headquarters''" "location t \<noteq> Some ''Jabi''"
      by (auto simp: regular_entry_def is_addition_def signed_quantity_def no_location_def
            split: option.splits)
    then show ?case
    proof cases
      case add
      then show ?thesis using ih by simp
    next
      case adj
      then show ?thesis using ih by simp
    next
      case upd
      then show ?thesis using ih by simp
    next
      case hq
      then show ?thesis using ih by simp
    next
      case jabi
      then show ?thesis using ih by simp
    next
      case none
      then show ?thesis using ih by simp
    qed
  qed
  show ?thesis
    unfolding closing_formula_def using n part by simp
qed

lemma valuation_of_eval:
  assumes "opening_balance (filter (\<lambda>t. timestamp t < s) txns) = Inr (oq, ov, lp)"
    and "period_cost ov oq (filter (\<lambda>t. s \<le> timestamp t) txns) = Inr (c, qa)"
    and "period_sums (filter (\<lambda>t. s \<le> timestamp t) txns) = Inr (additions, hq, jabi, other, adj)"
    and "(if qa > 0 then dec_div c (of_int qa) else lp) = wac"
    and "qa - (\<bar>hq\<bar> + \<bar>jabi\<bar> + \<bar>other\<bar>) + adj = closing"
    and "dec_mul (of_int closing) wac = tv"
    and "dec_mul (of_int (\<bar>hq\<bar> + \<bar>jabi\<bar> + \<bar>other\<bar>)) wac = cg"
  shows "valuation_of s txns =
           Inr \<lparr> opening_stock = oq, purchases = additions, adjustments = adj,
                 hq_issues = \<bar>hq\<bar>, jabi_issues = \<bar>jabi\<bar>, closing_stock = closing,
                 period_wac = wac, total_value = tv, cogs = cg \<rparr>"
proof -
  have "valuation_of s txns =
           Inr \<lparr> opening_stock = oq, purchases = additions, adjustments = adj,
                 hq_issues = \<bar>hq\<bar>, jabi_issues = \<bar>jabi\<bar>,
                 closing_stock = qa - (\<bar>hq\<bar> + \<bar>jabi\<bar> + \<bar>other\<bar>) + adj,
                 period_wac = (if qa > 0 then dec_div c (of_int qa) else lp),
                 total_value = dec_mul (of_int (qa - (\<bar>hq\<bar> + \<bar>jabi\<bar> + \<bar>other\<bar>) + adj))
                                 (if qa > 0 then dec_div c (of_int qa) else lp),
                 cogs = dec_mul (of_int (\<bar>hq\<bar> + \<bar>jabi\<bar> + \<bar>other\<bar>))
                          (if qa > 0 then dec_div c (of_int qa) else lp) \<rparr>"
    unfolding valuation_of_def assms(1) by (simp add: assms(2,3) Let_def)
  then show ?thesis by (simp only: assms(4-7))
qed

section \<open>Which exceptions the report raises\<close>

lemma py_sum_error: "py_sum acc qs = Inl e \<Longrightarrow> e = TypeError"
  by (induction acc qs rule: py_sum.induct) simp_all

lemma add_initial_stock_error: "add_initial_stock c ts = Inl e \<Longrightarrow> e = TypeError"
  by (induction ts arbitrary: c) (auto split: option.splits)

lemma wac_loop_error: "wac_loop (c, qa) ts = Inl e \<Longrightarrow> e = TypeError"
  by (induction ts arbitrary: c qa) (auto split: option.splits if_splits)

lemma period_cost_error: "period_cost ov oq ts = Inl e \<Longrightarrow> e = TypeError"
  by (auto simp: period_cost_def split: sum.splits dest: add_initial_stock_error wac_loop_error)

lemma period_sums_error: "period_sums ts = Inl e \<Longrightarrow> e = TypeError"
  by (auto simp: period_sums_def sum_quantity_def split: sum.splits dest: py_sum_error)

lemma opening_balance_error: "opening_balance ts = Inl e \<Longrightarrow> e = TypeError"
  by (auto simp: opening_balance_def Let_def split: sum.splits if_splits dest: py_sum_error)

lemma valuation_error:
  "calculate_periodic_wac_valuation rows iid s e = Inl err \<Longrightarrow> err = TypeError"
  unfolding calculate_periodic_wac_valuation_def valuation_of_def
  by (auto simp: Let_def split: sum.splits prod.splits
        dest: opening_balance_error period_cost_error period_sums_error)

lemma add_key_error: "add_key key v a h = Inl e \<Longrightarrow> e = InvalidOperation"
  by (auto simp: add_key_def Decimal_def split: option.splits sum.splits pyval.splits)

lemma aggregate_totals_error: "aggregate_totals r ct gt h = Inl e \<Longrightarrow> e = InvalidOperation"
  by (induction r ct gt h rule: aggregate_totals.induct)
     (auto split: sum.splits dest: add_key_error)

lemma process_item_error:
  "process_item rows s e item st = Inl err \<Longrightarrow> err \<noteq> PayloadTooLarge"
  by (auto simp: process_item_def Let_def split: sum.splits option.splits
        dest: valuation_error aggregate_totals_error)

lemma items_loop_error:
  "items_loop rows s e items st = Inl err \<Longrightarrow> err \<noteq> PayloadTooLarge"
  by (induction items arbitrary: st) (auto split: sum.splits dest: process_item_error)

section \<open>The loop over the items computes the grouped state\<close>

lemma Decimal_num: "is_num v \<Longrightarrow> Decimal v = Inr (num v)"
  by (cases v) (simp_all add: is_num_def Decimal_def num_def)

lemma keys_bump [simp]: "map fst (bump key v tot) = map fst tot"
  by (auto simp: bump_def split: option.splits)

lemma keys_add_report [simp]: "map fst (add_report r tot) = map fst tot"
  unfolding add_report_def by (induction r arbitrary: tot) auto

lemma add_key_bump:
  assumes "a < length h" and "key \<in> set (map fst (h ! a)) \<longrightarrow> is_num v"
  shows "add_key key v a h = Inr (h[a := bump key v (h ! a)])"
proof (cases "map_of (h ! a) key")
  case None
  then show ?thesis using assms(1) by (simp add: add_key_def deref_def bump_def)
next
  case (Some cur)
  then have "key \<in> set (map fst (h ! a))"
    by (metis map_of_eq_None_iff option.distinct(1) set_map)
  with assms(2) have "Decimal v = Inr (num v)" by (simp add: Decimal_num)
  with Some show ?thesis using assms(1) by (simp add: add_key_def deref_def bump_def)
qed

lemma aggregate_totals_pure:
  assumes "ct < length h" "gt < length h" "ct \<noteq> gt"
    and "\<forall>(k, v) \<in> set r. k \<in> set (map fst (h ! ct)) \<union> set (map fst (h ! gt)) \<longrightarrow> is_num v"
  shows "aggregate_totals r ct gt h =
           Inr (h[ct := add_report r (h ! ct), gt := add_report r (h ! gt)])"
  using assms
proof (induction r arbitrary: h)
  case Nil
  then show ?case by (simp add: add_report_def)
next
  case (Cons kv r)
  obtain key v where kv: "kv = (key, v)" by (cases kv)
  let ?h1 = "h[ct := bump key v (h ! ct)]"
  let ?h2 = "?h1[gt := bump key v (h ! gt)]"
  have n: "key \<in> set (map fst (h ! ct)) \<union> set (map fst (h ! gt)) \<longrightarrow> is_num v"
    using Cons.prems(4) kv by auto
  have s1: "add_key key v ct h = Inr ?h1"
    by (rule add_key_bump) (use Cons.prems(1) n in auto)
  have g1: "?h1 ! gt = h ! gt" using Cons.prems(3) by simp
  have s2: "add_key key v gt ?h1 = Inr ?h2"
    using add_key_bump[of gt ?h1 key v] Cons.prems(2) n g1 by simp
  have c2: "?h2 ! ct = bump key v (h ! ct)" using Cons.prems(1,3) by simp
  have g2: "?h2 ! gt = bump key v (h ! gt)" using Cons.prems(2) by simp
  have ih: "aggregate_totals r ct gt ?h2 =
           Inr (?h2[ct := add_report r (?h2 ! ct), gt := add_report r (?h2 ! gt)])"
  proof (rule Cons.IH)
    show "ct < length ?h2" "gt < length ?h2" "ct \<noteq> gt" using Cons.prems(1-3) by simp_all
    show "\<forall>(k, v) \<in> set r. k \<in> set (map fst (?h2 ! ct)) \<union> set (map fst (?h2 ! gt)) \<longrightarrow> is_num v"
      unfolding c2 g2 using Cons.prems(4) by auto
  qed
  have upd: "?h2[ct := A, gt := B] = h[ct := A, gt := B]" for A B
    using Cons.prems(3) by (simp add: list_update_swap)
  show ?case
    unfolding kv
    by (simp add: s1 s2 ih c2 g2 upd add_report_def)
qed

lemma dec_sum_snoc: "dec_sum (xs @ [x]) = dec_add (dec_sum xs) x"
  by (simp add: dec_sum_def)

lemma add_report_running_totals:
  "add_report (make_item_report item v) (running_totals rs) =
     running_totals (rs @ [make_item_report item v])"
  by (simp add: add_report_def make_item_report_def running_totals_def totals_template_def
        bump_def field_def num_def dec_sum_snoc)

lemma running_totals_Nil: "running_totals [] = totals_template"
  by (simp add: running_totals_def totals_template_def dec_sum_def)

lemma keys_running_totals: "map fst (running_totals rs) = map fst totals_template"
  by (simp add: running_totals_def totals_template_def)

lemma make_item_report_numeric:
  "\<forall>(k, x) \<in> set (make_item_report item v). k \<in> set (map fst totals_template) \<longrightarrow> is_num x"
  by (simp add: make_item_report_def totals_template_def is_num_def)

lemma first_seen_snoc:
  "first_seen (cs @ [c]) = (if c \<in> set cs then first_seen cs else first_seen cs @ [c])"
  by (simp add: first_seen_def)

lemma set_first_seen [simp]: "set (first_seen cs) = set cs"
  by (simp add: first_seen_def)

lemma distinct_first_seen [simp]: "distinct (first_seen cs)"
  by (simp add: first_seen_def)

lemma grand_addr_1 [simp]: "grand_addr = 1"
  by (simp add: grand_addr_def dict_copy_def)

lemma initial_state_grouped: "initial_state = grouped_state []"
  by (simp add: initial_state_def grouped_state_def state_for_def first_seen_def dict_copy_def
        deref_def running_totals_Nil group_def)

lemma group_snoc:
  "group c' (processed @ [(c, r)]) = (if c' = c then group c' processed @ [r] else group c' processed)"
  by (simp add: group_def)

lemma group_absent: "c \<notin> set (map fst processed) \<Longrightarrow> group c processed = []"
  by (auto simp: group_def filter_empty_conv)

lemma zip_upt_snoc:
  "zip (cats @ [c]) [b ..< b + length (cats @ [c])] =
     zip cats [b ..< b + length cats] @ [(c, b + length cats)]"
proof -
  have u: "[b ..< b + length (cats @ [c])] = [b ..< b + length cats] @ [b + length cats]"
    by simp
  have "zip (cats @ [c]) ([b ..< b + length cats] @ [b + length cats]) =
           zip cats [b ..< b + length cats] @ zip [c] [b + length cats]"
    by (rule zip_append) simp
  then show ?thesis unfolding u by simp
qed

lemma open_category_state_for:
  assumes "set (map fst processed) \<subseteq> set cats"
  shows "open_category c (state_for cats processed) =
           state_for (if c \<in> set cats then cats else cats @ [c]) processed"
proof (cases "c \<in> set cats")
  case True
  then show ?thesis by (simp add: open_category_def state_for_def comp_def)
next
  case False
  then have "c \<notin> set (map fst processed)" using assms by auto
  then have g: "group c processed = []" by (rule group_absent)
  have z: "zip (cats @ [c]) [2 ..< Suc (Suc (Suc (length cats)))] =
           zip cats [2 ..< Suc (Suc (length cats))] @ [(c, Suc (Suc (length cats)))]"
    using zip_upt_snoc[of cats c 2] by (simp del: upt_Suc)
  show ?thesis
    using False
    unfolding open_category_def state_for_def
    by (simp add: comp_def dict_copy_def deref_def template_addr_def g running_totals_Nil
          z del: upt_Suc)
qed

lemma map_of_zip_index:
  assumes "distinct cats" "i < length cats"
  shows "map_of (zip cats [n ..< n + length cats]) (cats ! i) = Some (n + i)"
proof -
  have "map_of (zip cats [n ..< n + length cats]) (cats ! i) = Some ([n ..< n + length cats] ! i)"
    by (rule map_of_zip_nth) (use assms in simp_all)
  then show ?thesis using assms(2) by simp
qed

lemma append_item_state_for:
  "append_item c r (map (\<lambda>c'. (c', group c' processed)) cats) =
     map (\<lambda>c'. (c', group c' (processed @ [(c, r)]))) cats"
  by (simp add: append_item_def group_snoc)

lemma store_step:
  assumes d: "distinct cats" and i: "i < length cats"
  shows "([totals_template, running_totals (map snd processed)]
            @ map (\<lambda>c. running_totals (group c processed)) cats)
          [2 + i := running_totals (group (cats ! i) processed @ [r]),
           1 := running_totals (map snd processed @ [r])] =
         [totals_template, running_totals (map snd (processed @ [(cats ! i, r)]))]
            @ map (\<lambda>c. running_totals (group c (processed @ [(cats ! i, r)]))) cats"
proof (rule nth_equalityI)
  show "length (([totals_template, running_totals (map snd processed)]
            @ map (\<lambda>c. running_totals (group c processed)) cats)
          [2 + i := running_totals (group (cats ! i) processed @ [r]),
           1 := running_totals (map snd processed @ [r])]) =
        length ([totals_template, running_totals (map snd (processed @ [(cats ! i, r)]))]
            @ map (\<lambda>c. running_totals (group c (processed @ [(cats ! i, r)]))) cats)"
    by simp
next
  fix j
  assume "j < length (([totals_template, running_totals (map snd processed)]
            @ map (\<lambda>c. running_totals (group c processed)) cats)
          [2 + i := running_totals (group (cats ! i) processed @ [r]),
           1 := running_totals (map snd processed @ [r])])"
  then have j: "j < 2 + length cats" by simp
  consider "j = 0" | "j = 1" | k where "j = 2 + k" "k < length cats"
    using j by (metis One_nat_def Suc_1 add_2_eq_Suc less_Suc_eq_0_disj nat_add_left_cancel_less
        not0_implies_Suc)
  then show "(([totals_template, running_totals (map snd processed)]
            @ map (\<lambda>c. running_totals (group c processed)) cats)
          [2 + i := running_totals (group (cats ! i) processed @ [r]),
           1 := running_totals (map snd processed @ [r])]) ! j =
        ([totals_template, running_totals (map snd (processed @ [(cats ! i, r)]))]
            @ map (\<lambda>c. running_totals (group c (processed @ [(cats ! i, r)]))) cats) ! j"
  proof cases
    case 1
    then show ?thesis by simp
  next
    case 2
    then show ?thesis by simp
  next
    case 3
    have eq: "cats ! k = cats ! i \<longleftrightarrow> k = i"
      using d i 3(2) by (simp add: nth_eq_iff_index_eq)
    show ?thesis
      using 3 i eq by (simp add: nth_append group_snoc nth_list_update)
  qed
qed

lemma store_state_for_nth:
  "i < length cats \<Longrightarrow>
     store (state_for cats processed) ! (2 + i) = running_totals (group (cats ! i) processed)"
  "store (state_for cats processed) ! 1 = running_totals (map snd processed)"
  "store (state_for cats processed) ! 0 = totals_template"
  "length (store (state_for cats processed)) = 2 + length cats"
  by (simp_all add: state_for_def)

lemma process_item_state_for:
  assumes v: "calculate_periodic_wac_valuation rows (inv_id item) s e = Inr v"
    and d: "distinct cats" and i: "i < length cats" and c: "cats ! i = category_name item"
  shows "process_item rows s e item (state_for cats processed) =
           Inr (state_for cats (processed @ [(category_name item, make_item_report item v)]))"
proof -
  let ?r = "make_item_report item v"
  let ?st = "state_for cats processed"
  have mem: "category_name item \<in> set cats" using i c by (metis nth_mem)
  have oc: "open_category (category_name item) ?st = ?st"
    using mem by (simp add: open_category_def state_for_def comp_def)
  have lk: "map_of (category_totals ?st) (category_name item) = Some (2 + i)"
    using map_of_zip_index[OF d i, of 2] c by (simp add: state_for_def)
  have ag: "aggregate_totals ?r (2 + i) 1 (store ?st) =
      Inr ((store ?st)[2 + i := add_report ?r (store ?st ! (2 + i)),
                       1 := add_report ?r (store ?st ! 1)])"
  proof (rule aggregate_totals_pure)
    show "2 + i < length (store ?st)" using i by (simp add: store_state_for_nth)
    show "1 < length (store ?st)" by (simp add: store_state_for_nth)
    show "2 + i \<noteq> 1" by simp
    have k1: "map fst (store ?st ! (2 + i)) = map fst totals_template"
      using i by (simp only: store_state_for_nth keys_running_totals)
    have k2: "map fst (store ?st ! 1) = map fst totals_template"
      by (simp only: store_state_for_nth keys_running_totals)
    show "\<forall>(k, x) \<in> set ?r.
            k \<in> set (map fst (store ?st ! (2 + i))) \<union> set (map fst (store ?st ! 1))
            \<longrightarrow> is_num x"
      unfolding k1 k2 using make_item_report_numeric[of item v] by auto
  qed
  have st': "(store ?st)[2 + i := add_report ?r (store ?st ! (2 + i)),
                       1 := add_report ?r (store ?st ! 1)] =
        store (state_for cats (processed @ [(category_name item, ?r)]))"
  proof -
    have e1: "store (state_for cats P) =
        [totals_template, running_totals (map snd P)]
          @ map (\<lambda>c. running_totals (group c P)) cats" for P
      by (simp add: state_for_def)
    have b1: "add_report ?r (store ?st ! (2 + i)) =
        running_totals (group (cats ! i) processed @ [?r])"
      unfolding store_state_for_nth(1)[OF i] by (rule add_report_running_totals)
    have b2: "add_report ?r (store ?st ! 1) = running_totals (map snd processed @ [?r])"
      unfolding store_state_for_nth(2) by (rule add_report_running_totals)
    have "(store ?st)[2 + i := add_report ?r (store ?st ! (2 + i)),
                       1 := add_report ?r (store ?st ! 1)] =
          (store ?st)[2 + i := running_totals (group (cats ! i) processed @ [?r]),
                       1 := running_totals (map snd processed @ [?r])]"
      by (simp only: b1 b2)
    also have "\<dots> = store (state_for cats (processed @ [(cats ! i, ?r)]))"
      unfolding e1 by (rule store_step[OF d i])
    finally show ?thesis unfolding c .
  qed
  have rd: "append_item (category_name item) ?r (report_data ?st) =
        report_data (state_for cats (processed @ [(category_name item, ?r)]))"
    by (simp add: state_for_def append_item_state_for)
  have ctt: "category_totals ?st =
        category_totals (state_for cats (processed @ [(category_name item, ?r)]))"
    by (simp add: state_for_def)
  let ?st' = "state_for cats (processed @ [(category_name item, ?r)])"
  have "process_item rows s e item ?st =
      (case map_of (category_totals ?st) (category_name item) of
         None \<Rightarrow> Inl KeyError
       | Some ct \<Rightarrow>
           (case aggregate_totals ?r ct grand_addr (store ?st) of
              Inl e \<Rightarrow> Inl e
            | Inr h \<Rightarrow>
                Inr \<lparr> store = h,
                      report_data = append_item (category_name item) ?r (report_data ?st),
                      category_totals = category_totals ?st \<rparr>))"
    unfolding process_item_def v by (simp only: sum.case Let_def oc)
  also have "\<dots> =
      Inr \<lparr> store = (store ?st)[2 + i := add_report ?r (store ?st ! (2 + i)),
                                   1 := add_report ?r (store ?st ! 1)],
            report_data = append_item (category_name item) ?r (report_data ?st),
            category_totals = category_totals ?st \<rparr>"
    by (simp only: lk option.case grand_addr_1 ag sum.case)
  also have "\<dots> = Inr \<lparr> store = store ?st', report_data = report_data ?st',
                        category_totals = category_totals ?st' \<rparr>"
    by (simp only: st' rd ctt)
  also have "\<dots> = Inr ?st'" by simp
  finally show ?thesis .
qed

lemma process_item_cong:
  assumes "open_category (category_name item) st = open_category (category_name item) st'"
  shows "process_item rows s e item st = process_item rows s e item st'"
  unfolding process_item_def assms ..

lemma process_item_grouped:
  assumes v: "calculate_periodic_wac_valuation rows (inv_id item) s e = Inr v"
  shows "process_item rows s e item (grouped_state processed) =
           Inr (grouped_state (processed @ [(category_name item, make_item_report item v)]))"
proof -
  let ?c = "category_name item"
  let ?cats = "first_seen (map fst processed)"
  let ?cats' = "if ?c \<in> set ?cats then ?cats else ?cats @ [?c]"
  have fs: "first_seen (map fst (processed @ [(?c, make_item_report item v)])) = ?cats'"
    by (simp add: first_seen_snoc)
  have d: "distinct ?cats'" by simp
  have "?c \<in> set ?cats'" by simp
  then obtain i where i: "i < length ?cats'" and c: "?cats' ! i = ?c"
    by (meson in_set_conv_nth)
  have oc: "open_category ?c (state_for ?cats processed) = state_for ?cats' processed"
    by (rule open_category_state_for) simp
  have same: "process_item rows s e item (state_for ?cats processed) =
              process_item rows s e item (state_for ?cats' processed)"
  proof (rule process_item_cong)
    have "open_category ?c (state_for ?cats' processed) = state_for ?cats' processed"
      by (simp add: open_category_def state_for_def comp_def)
    with oc show "open_category ?c (state_for ?cats processed) =
                  open_category ?c (state_for ?cats' processed)"
      by simp
  qed
  show ?thesis
    unfolding grouped_state_def fs same
    by (rule process_item_state_for[OF v d i c])
qed

lemma items_loop_grouped:
  assumes "\<forall>item \<in> set items. returns rows s e item"
  shows "items_loop rows s e items (grouped_state processed) =
           Inr (grouped_state (processed @ map (report_entry rows s e) items))"
  using assms
proof (induction items arbitrary: processed)
  case Nil
  then show ?case by simp
next
  case (Cons item items)
  then have "returns rows s e item" by simp
  then obtain v where v: "calculate_periodic_wac_valuation rows (inv_id item) s e = Inr v"
    by (auto simp: returns_def split: sum.splits)
  have re: "report_entry rows s e item = (category_name item, make_item_report item v)"
    by (simp add: report_entry_def v)
  from Cons.prems have "\<forall>item \<in> set items. returns rows s e item" by simp
  from Cons.IH[OF this, of "processed @ [(category_name item, make_item_report item v)]"]
  show ?case by (simp add: process_item_grouped[OF v] re)
qed

lemma items_loop_append:
  "items_loop rows s e (xs @ ys) st =
     (case items_loop rows s e xs st of Inl err \<Rightarrow> Inl err
      | Inr st' \<Rightarrow> items_loop rows s e ys st')"
  by (induction xs arbitrary: st) (auto split: sum.splits)

lemma items_loop_raises:
  assumes "\<forall>item \<in> set pre. returns rows s e item"
    and "calculate_periodic_wac_valuation rows (inv_id bad) s e = Inl err"
  shows "items_loop rows s e (pre @ bad # post) initial_state = Inl err"
  unfolding items_loop_append initial_state_grouped items_loop_grouped[OF assms(1)]
  by (simp add: process_item_def assms(2))

section \<open>What \<open>generate_report\<close> returns\<close>

lemma generate_report_raises:
  assumes q: "item_query (inventory_rows db) end_dt flt = pre @ bad # post"
    and n: "length (pre @ bad # post) \<le> 5000"
    and ok: "\<forall>item \<in> set pre. returns (transaction_rows db) start_dt end_dt item"
    and bad: "calculate_periodic_wac_valuation (transaction_rows db) (inv_id bad) start_dt end_dt
                = Inl err"
  shows "generate_report db start_dt end_dt flt = Inl err"
  unfolding generate_report_def q using n
  by (simp add: Let_def items_loop_raises[OF ok bad])

lemma generate_report_returns:
  assumes ne: "item_query (inventory_rows db) end_dt flt \<noteq> []"
    and n: "length (item_query (inventory_rows db) end_dt flt) \<le> 5000"
    and ok: "\<forall>item \<in> set (item_query (inventory_rows db) end_dt flt).
               returns (transaction_rows db) start_dt end_dt item"
  shows "generate_report db start_dt end_dt flt =
           Inr (report_of (grouped_state
                  (map (report_entry (transaction_rows db) start_dt end_dt)
                     (item_query (inventory_rows db) end_dt flt))))"
  unfolding generate_report_def using ne n
  by (simp add: Let_def initial_state_grouped items_loop_grouped[OF ok])

lemma report_data_grouped:
  "fst (report_of (grouped_state entries)) =
     map (\<lambda>c. (c, group c entries)) (first_seen (map fst entries))"
  by (simp add: report_of_def grouped_state_def state_for_def)

lemma valuation_of_cost_raises:
  assumes "opening_balance (filter (\<lambda>t. timestamp t < s) txns) = Inr (oq, ov, lp)"
    and "period_cost ov oq (filter (\<lambda>t. s \<le> timestamp t) txns) = Inl err"
  shows "valuation_of s txns = Inl err"
  unfolding valuation_of_def assms(1) by (simp add: assms(2))

lemma returns_if_present:
  assumes "\<forall>t \<in> set rows. inventory_id t = inv_id item \<longrightarrow> quantity t \<noteq> None"
  shows "returns rows s e item"
proof -
  have "\<forall>t \<in> set (fetch_transactions rows (inv_id item) e). quantity t \<noteq> None"
    using assms by (simp add: set_fetch_transactions)
  from valuation_of_stock[OF this, of s]
  show ?thesis by (auto simp: returns_def calculate_periodic_wac_valuation_def)
qed

section \<open>Totals as sums\<close>

lemma foldl_dec_add_exact:
  assumes "decimal_places p acc" and "\<forall>v \<in> set vs. decimal_places p v"
    and "(\<bar>acc\<bar> + sum_list (map abs vs)) * 10 ^ p < 10 ^ 28"
  shows "foldl dec_add acc vs = acc + sum_list vs"
  using assms
proof (induction vs arbitrary: acc)
  case Nil
  then show ?case by simp
next
  case (Cons v vs)
  have rest0: "0 \<le> sum_list (map abs vs)" by (induction vs) simp_all
  have bound: "(\<bar>acc\<bar> + (\<bar>v\<bar> + sum_list (map abs vs))) * 10 ^ p < 10 ^ 28"
    using Cons.prems(3) by simp
  have pv: "decimal_places p v" using Cons.prems(2) by simp
  have a: "dec_add acc v = acc + v"
  proof (rule dec_add_exact[OF Cons.prems(1) pv])
    have "\<bar>acc\<bar> + \<bar>v\<bar> \<le> \<bar>acc\<bar> + (\<bar>v\<bar> + sum_list (map abs vs))" using rest0 by simp
    from this bound show "(\<bar>acc\<bar> + \<bar>v\<bar>) * 10 ^ p < 10 ^ 28" by (rule fits_mono)
  qed
  have "foldl dec_add (acc + v) vs = acc + v + sum_list vs"
  proof (rule Cons.IH)
    show "decimal_places p (acc + v)" using Cons.prems(1) pv by (rule decimal_places_add)
    show "\<forall>v \<in> set vs. decimal_places p v" using Cons.prems(2) by simp
    have "\<bar>acc + v\<bar> + sum_list (map abs vs) \<le> \<bar>acc\<bar> + (\<bar>v\<bar> + sum_list (map abs vs))"
      by simp
    from this bound show "(\<bar>acc + v\<bar> + sum_list (map abs vs)) * 10 ^ p < 10 ^ 28"
      by (rule fits_mono)
  qed
  then show ?case by (simp add: a add.assoc)
qed

lemma dec_sum_exact: "exact_values p vs \<Longrightarrow> dec_sum vs = sum_list vs"
  unfolding dec_sum_def exact_values_def
  using foldl_dec_add_exact[of p 0 vs] by (simp add: list_all_iff)

lemma sum_list_abs_filter_le:
  "sum_list (map (\<lambda>x. \<bar>f x :: rat\<bar>) (filter P xs)) \<le> sum_list (map (\<lambda>x. \<bar>f x\<bar>) xs)"
  by (induction xs) (auto intro: order_trans)

lemma exact_values_group:
  assumes "exact_values p (map f (map snd entries))"
  shows "exact_values p (map f (group c entries))"
proof -
  have pl: "list_all (decimal_places p) (map f (group c entries))"
    using assms by (auto simp: exact_values_def group_def list_all_iff)
  have "sum_list (map abs (map f (group c entries))) =
        sum_list (map (\<lambda>x. \<bar>f (snd x)\<bar>) (filter (\<lambda>x. fst x = c) entries))"
    by (simp add: group_def comp_def)
  also have "\<dots> \<le> sum_list (map (\<lambda>x. \<bar>f (snd x)\<bar>) entries)"
    by (rule sum_list_abs_filter_le)
  also have "\<dots> = sum_list (map abs (map f (map snd entries)))"
    by (simp add: comp_def)
  finally have "sum_list (map abs (map f (group c entries)))
                  \<le> sum_list (map abs (map f (map snd entries)))" .
  moreover have "sum_list (map abs (map f (map snd entries))) * 10 ^ p < 10 ^ 28"
    using assms by (simp add: exact_values_def)
  ultimately have "sum_list (map abs (map f (group c entries))) * 10 ^ p < 10 ^ 28"
    by (rule fits_mono)
  with pl show ?thesis by (simp add: exact_values_def)
qed

lemma sum_list_bump:
  "distinct cs \<Longrightarrow> c \<in> set cs \<Longrightarrow>
     sum_list (map (\<lambda>c'. if c' = c then g c' + x else g c') cs) = sum_list (map g cs) + (x :: rat)"
  by (induction cs) (auto intro!: arg_cong[where f = sum_list] map_cong)

lemma sum_list_groups:
  "sum_list (map (\<lambda>c. sum_list (map f (group c entries))) (first_seen (map fst entries))) =
     (sum_list (map f (map snd entries)) :: rat)"
proof (induction entries rule: rev_induct)
  case Nil
  then show ?case by (simp add: first_seen_def)
next
  case (snoc e entries)
  obtain c r where e: "e = (c, r)" by (cases e)
  let ?cats = "first_seen (map fst entries)"
  have upd: "(\<lambda>c'. sum_list (map f (group c' (entries @ [(c, r)])))) =
             (\<lambda>c'. if c' = c then sum_list (map f (group c' entries)) + f r
                   else sum_list (map f (group c' entries)))"
    by (auto simp: group_snoc fun_eq_iff)
  show ?case
  proof (cases "c \<in> set (map fst entries)")
    case True
    then have m: "c \<in> set ?cats" by simp
    have "sum_list (map (\<lambda>c'. sum_list (map f (group c' (entries @ [(c, r)])))) ?cats) =
          sum_list (map (\<lambda>c'. sum_list (map f (group c' entries))) ?cats) + f r"
      unfolding upd by (rule sum_list_bump) (use m in simp_all)
    then show ?thesis using True snoc by (simp add: e first_seen_snoc)
  next
    case False
    then have g0: "group c entries = []" by (rule group_absent)
    have same: "map (\<lambda>c'. sum_list (map f (group c' (entries @ [(c, r)])))) ?cats =
          map (\<lambda>c'. sum_list (map f (group c' entries))) ?cats"
      using False by (intro map_cong) (auto simp: group_snoc)
    have last: "sum_list (map f (group c (entries @ [(c, r)]))) = f r"
      by (simp add: group_snoc g0)
    have fs: "first_seen (map fst (entries @ [(c, r)])) = ?cats @ [c]"
      using False by (simp add: first_seen_snoc)
    have "sum_list (map (\<lambda>c'. sum_list (map f (group c' (entries @ [(c, r)]))))
            (first_seen (map fst (entries @ [(c, r)])))) =
          sum_list (map (\<lambda>c'. sum_list (map f (group c' entries))) ?cats) + f r"
      unfolding fs by (simp only: map_append sum_list_append same list.map sum_list.Cons
          sum_list.Nil last add_0_right)
    also have "\<dots> = sum_list (map f (map snd entries)) + f r" by (simp only: snoc)
    also have "\<dots> = sum_list (map f (map snd (entries @ [(c, r)])))" by simp
    finally show ?thesis unfolding e .
  qed
qed

lemma map_of_running_totals:
  "map_of (running_totals rs) k =
     (if k \<in> set (map fst totals_template) then Some (dec_sum (map (field k) rs)) else None)"
  by (simp add: running_totals_def totals_template_def)

lemma map_snd_zip_upt:
  "map snd (zip cats [b ..< b + length cats]) = [b ..< b + length cats]"
  by (rule map_snd_zip) simp

lemma nth_zip_upt:
  "i < length cats \<Longrightarrow> zip cats [b ..< b + length cats] ! i = (cats ! i, b + i)"
  by simp

lemma category_totals_grouped:
  "map (\<lambda>(c, a). (c, deref (store (state_for cats entries)) a))
       (category_totals (state_for cats entries)) =
     map (\<lambda>c. (c, running_totals (group c entries))) cats"
proof (rule nth_equalityI)
  show "length (map (\<lambda>(c, a). (c, deref (store (state_for cats entries)) a))
       (category_totals (state_for cats entries))) =
     length (map (\<lambda>c. (c, running_totals (group c entries))) cats)"
    by (simp add: state_for_def del: upt_Suc)
next
  fix i
  assume "i < length (map (\<lambda>(c, a). (c, deref (store (state_for cats entries)) a))
       (category_totals (state_for cats entries)))"
  then have i: "i < length cats" by (simp add: state_for_def del: upt_Suc)
  have z: "category_totals (state_for cats entries) ! i = (cats ! i, 2 + i)"
    using nth_zip_upt[OF i, of 2] by (simp add: state_for_def del: upt_Suc)
  have d: "deref (store (state_for cats entries)) (2 + i) =
           running_totals (group (cats ! i) entries)"
    unfolding deref_def
    using i store_state_for_nth(1)[OF i, of entries] store_state_for_nth(4)[of cats entries]
    by simp
  have l: "i < length (category_totals (state_for cats entries))"
    using i by (simp add: state_for_def del: upt_Suc)
  show "map (\<lambda>(c, a). (c, deref (store (state_for cats entries)) a))
       (category_totals (state_for cats entries)) ! i =
     map (\<lambda>c. (c, running_totals (group c entries))) cats ! i"
    using i l d by (simp add: z)
qed

lemma report_of_grouped:
  "report_of (grouped_state entries) =
     (map (\<lambda>c. (c, group c entries)) (first_seen (map fst entries)),
      map (\<lambda>c. (c, running_totals (group c entries))) (first_seen (map fst entries)),
      running_totals (map snd entries))"
  unfolding report_of_def grouped_state_def category_totals_grouped
  by (simp add: state_for_def deref_def)

lemma addresses_grouped:
  "distinct (template_addr # grand_addr # map snd (category_totals (grouped_state entries)))
   \<and> deref (store (grouped_state entries)) template_addr = totals_template"
proof -
  let ?cats = "first_seen (map fst entries)"
  have m: "map snd (category_totals (grouped_state entries)) = [2 ..< 2 + length ?cats]"
    using map_snd_zip_upt[of ?cats 2] by (simp add: grouped_state_def state_for_def del: upt_Suc)
  have "distinct ((0::nat) # 1 # [2 ..< 2 + length ?cats])"
    by (simp del: upt_Suc)
  moreover have "deref (store (grouped_state entries)) template_addr = totals_template"
    by (simp add: grouped_state_def state_for_def template_addr_def deref_def)
  ultimately show ?thesis unfolding m by (simp add: template_addr_def del: upt_Suc)
qed

lemma field_decimal_places_int:
  assumes "returns rows s e item" and "k \<in> set (map fst totals_template)"
    and "k \<noteq> ''total_value''"
  shows "decimal_places 0 (field k (snd (report_entry rows s e item)))"
proof -
  from assms(1) obtain v where v: "calculate_periodic_wac_valuation rows (inv_id item) s e = Inr v"
    by (auto simp: returns_def split: sum.splits)
  show ?thesis
    using assms(2,3)
    by (auto simp: report_entry_def v field_def make_item_report_def num_def decimal_places_def
          totals_template_def)
qed

lemma field_make_item_report:
  "field ''total_value'' (make_item_report item v) = total_value v"
  "field ''closing_stock'' (make_item_report item v) = of_int (closing_stock v)"
  by (simp_all add: field_def make_item_report_def num_def)


section \<open>An item without entries\<close>

lemma valuation_of_Nil:
  "valuation_of start_date [] =
     Inr \<lparr> opening_stock = 0, purchases = 0, adjustments = 0, hq_issues = 0,
       jabi_issues = 0, closing_stock = 0, period_wac = 0, total_value = 0, cogs = 0 \<rparr>"
  by (simp add: valuation_of_def opening_balance_def period_cost_def period_sums_def
        sum_quantity_def)

lemma fetch_transactions_Nil:
  assumes "\<forall>t \<in> set rows. inventory_id t = iid \<longrightarrow> end_date < timestamp t"
  shows "fetch_transactions rows iid end_date = []"
proof -
  have "filter (\<lambda>t. inventory_id t = iid \<and> timestamp t \<le> end_date) rows = []"
    using assms by (auto simp: filter_empty_conv)
  then show ?thesis by (simp add: fetch_transactions_def)
qed

text \<open>
  Claim C7. An item that has no ledger entry up to the end of the window is valued with
  every quantity and value field zero and a unit price of 0, and the valuation returns
  (it raises nothing): the query yields no row, the opening balance is the zero triple,
  both loops and all sums run over the empty list, and the period price falls back on
  the last known price \<open>Decimal('0.0')\<close>.
\<close>

theorem no_entries_zero_valuation:
  assumes "\<forall>t \<in> set rows. inventory_id t = iid \<longrightarrow> end_date < timestamp t"
  shows "calculate_periodic_wac_valuation rows iid start_date end_date =
           Inr \<lparr> opening_stock = 0, purchases = 0, adjustments = 0, hq_issues = 0,
       jabi_issues = 0, closing_stock = 0, period_wac = 0, total_value = 0, cogs = 0 \<rparr>"
  unfolding calculate_periodic_wac_valuation_def fetch_transactions_Nil[OF assms]
  by (rule valuation_of_Nil)

theorem no_entries_zero_valuation_witness:
  "list_all (\<lambda>t. inventory_id t = 1 \<longrightarrow> 30 < timestamp t) other_rows
   \<and> calculate_periodic_wac_valuation other_rows 1 10 30 =
         Inr \<lparr> opening_stock = 0, purchases = 0, adjustments = 0, hq_issues = 0,
       jabi_issues = 0, closing_stock = 0, period_wac = 0, total_value = 0, cogs = 0 \<rparr>"
proof -
  have h: "\<forall>t \<in> set other_rows. inventory_id t = 1 \<longrightarrow> 30 < timestamp t"
    by (simp add: other_rows_def)
  from no_entries_zero_valuation[OF h, of 10] h show ?thesis
    by (simp add: list_all_iff)
qed

section \<open>The opening balance\<close>




section \<open>The scenario of the specification and the double count\<close>






















section \<open>Price updates\<close>

lemma repricing_fetch: "fetch_transactions repricing_rows 1 20 = repricing_rows"
  by code_simp

lemma repricing_before:
  "filter (\<lambda>t. timestamp t < 10) repricing_rows = [repricing_rows ! 0]"
  by (simp add: repricing_rows_def)

lemma repricing_during:
  "filter (\<lambda>t. 10 \<le> timestamp t) repricing_rows = [repricing_rows ! Suc 0]"
  by (simp add: repricing_rows_def)

lemma repricing_opening: "opening_balance [repricing_rows ! 0] = Inr (100, 500, 5)"
  by code_simp

lemma repricing_cost: "period_cost 500 100 [repricing_rows ! Suc 0] = Inr (800, 100)"
  by code_simp

lemma repricing_sums: "period_sums [repricing_rows ! Suc 0] = Inr (0, 0, 0, 0, 0)"
  by code_simp

lemma repricing_wac: "dec_div 800 100 = 8" "dec_mul 100 8 = 800"
  by code_simp+

lemma repricing_valuation:
  "calculate_periodic_wac_valuation repricing_rows 1 10 20 =
     Inr \<lparr> opening_stock = 100, purchases = 0, adjustments = 0, hq_issues = 0,
           jabi_issues = 0, closing_stock = 100, period_wac = 8, total_value = 800,
           cogs = 0 \<rparr>"
  by (simp add: calculate_periodic_wac_valuation_def repricing_fetch valuation_of_def
    repricing_before repricing_during repricing_opening repricing_cost repricing_sums
    repricing_wac)

text \<open>
  Claim C6. A price_update entry met by the second loop replaces the running cost of
  goods available by quantity available times the new unit price: the cost reached
  before the entry is discarded (it does not occur in the result), and the quantity
  available is unchanged. The product is the \<open>Decimal\<close> product, the exact one when it
  fits 28 digits. With 100 units at a cost of 500 (price 5) and a price_update to 8 in
  the window, the cost becomes 800 and the period price 8.
\<close>

theorem price_update_resets_cost:
  fixes k :: nat
  assumes kind: "transaction_type t = ''price_update''"
    and prefix: "wac_loop (c, qa) xs = Inr (c', qa')"
  shows
    "wac_loop (c, qa) (xs @ t # ys) =
       wac_loop (dec_mul (of_int qa') (Decimal_or_zero (unit_price t)), qa') ys
     \<and> wac_loop (c, qa) (xs @ [t]) =
         Inr (dec_mul (of_int qa') (Decimal_or_zero (unit_price t)), qa')
     \<and> (decimal_places k (Decimal_or_zero (unit_price t))
          \<and> \<bar>of_int qa' * Decimal_or_zero (unit_price t)\<bar> * 10 ^ k < 10 ^ 28
        \<longrightarrow> wac_loop (c, qa) (xs @ [t]) =
              Inr (of_int qa' * Decimal_or_zero (unit_price t), qa'))
     \<and> period_cost 500 100
           (filter (\<lambda>t. 10 \<le> timestamp t) (fetch_transactions repricing_rows 1 20)) =
         Inr (800, 100)
     \<and> calculate_periodic_wac_valuation repricing_rows 1 10 20 =
         Inr \<lparr> opening_stock = 100, purchases = 0, adjustments = 0, hq_issues = 0,
               jabi_issues = 0, closing_stock = 100, period_wac = 8, total_value = 800,
               cogs = 0 \<rparr>"
proof -
  have a: "wac_loop (c, qa) (xs @ t # ys) =
       wac_loop (dec_mul (of_int qa') (Decimal_or_zero (unit_price t)), qa') ys"
    by (simp add: wac_loop_append prefix kind)
  have b: "wac_loop (c, qa) (xs @ [t]) =
         Inr (dec_mul (of_int qa') (Decimal_or_zero (unit_price t)), qa')"
    by (simp add: wac_loop_append prefix kind)
  have e: "decimal_places k (Decimal_or_zero (unit_price t))
          \<and> \<bar>of_int qa' * Decimal_or_zero (unit_price t)\<bar> * 10 ^ k < 10 ^ 28
        \<longrightarrow> wac_loop (c, qa) (xs @ [t]) =
              Inr (of_int qa' * Decimal_or_zero (unit_price t), qa')"
    unfolding b by (auto intro: dec_mul_int_exact)
  have s: "period_cost 500 100
           (filter (\<lambda>t. 10 \<le> timestamp t) (fetch_transactions repricing_rows 1 20)) =
         Inr (800, 100)"
    by (simp only: repricing_fetch repricing_during repricing_cost)
  from a b e s repricing_valuation show ?thesis by blast
qed

theorem price_update_resets_cost_witness:
  "transaction_type (repricing_rows ! Suc 0) = ''price_update''
   \<and> wac_loop (500, 100) [] = Inr (500, 100)
   \<and> decimal_places 0 (Decimal_or_zero (unit_price (repricing_rows ! Suc 0)))
   \<and> wac_loop (500, 100) ([] @ [repricing_rows ! Suc 0]) = Inr (800, 100)"
proof -
  have h1: "transaction_type (repricing_rows ! Suc 0) = ''price_update''"
    by (simp add: repricing_rows_def)
  have h2: "wac_loop (500, 100) [] = Inr (500, 100)" by simp
  have pr: "Decimal_or_zero (unit_price (repricing_rows ! Suc 0)) = 8"
    by (simp add: repricing_rows_def Decimal_or_zero_def)
  have h3: "decimal_places 0 (Decimal_or_zero (unit_price (repricing_rows ! Suc 0)))"
    unfolding pr by (simp add: decimal_places_def)
  have h4: "\<bar>of_int 100 * Decimal_or_zero (unit_price (repricing_rows ! Suc 0))\<bar> * 10 ^ 0
              < (10::rat) ^ 28"
    unfolding pr by simp
  from price_update_resets_cost[OF h1 h2, where k = 0 and ys = "[]"] h3 h4
  have "wac_loop (500, 100) ([] @ [repricing_rows ! Suc 0]) =
          Inr (of_int 100 * Decimal_or_zero (unit_price (repricing_rows ! Suc 0)), 100)"
    by blast
  then have "wac_loop (500, 100) ([] @ [repricing_rows ! Suc 0]) = Inr (800, 100)"
    unfolding pr by simp
  with h1 h2 h3 show ?thesis by blast
qed

section \<open>Continuity of stock between windows\<close>

text \<open>
  Claim C2, as amended. Suppose every ledger entry of the item has a quantity and one of
  the five kinds, its price_update entries move no stock, and its issues have quantities
  that are not positive and a request located at Headquarters, at Jabi or nowhere. Then
  for two windows where the second starts at the timestamp that follows the inclusive
  end of the first (\<open>start2 = end1 + 1 microsecond\<close>) and does not end before it, both
  valuations return and the closing stock of the first is the opening stock of the
  second.
\<close>

theorem closing_stock_is_next_opening_stock:
  assumes regular: "\<forall>t \<in> set rows. inventory_id t = iid \<longrightarrow> regular_entry t"
    and adjacent: "start2 = end1 + 1"
    and later: "end1 \<le> end2"
  shows "\<exists>v1 v2.
           calculate_periodic_wac_valuation rows iid start1 end1 = Inr v1
         \<and> calculate_periodic_wac_valuation rows iid start2 end2 = Inr v2
         \<and> closing_stock v1 = opening_stock v2"
proof -
  let ?T1 = "fetch_transactions rows iid end1"
  let ?T2 = "fetch_transactions rows iid end2"
  have r1: "\<forall>t \<in> set ?T1. regular_entry t"
    using regular by (simp add: set_fetch_transactions)
  have r2: "\<forall>t \<in> set ?T2. regular_entry t"
    using regular by (simp add: set_fetch_transactions)
  have q: "regular_entry t \<Longrightarrow> quantity t \<noteq> None" for t
    by (auto simp: regular_entry_def split: option.splits)
  from valuation_of_stock[of ?T1 start1] r1 q
  obtain v1 where v1: "valuation_of start1 ?T1 = Inr v1"
    and c1: "closing_stock v1 = closing_formula (filter (\<lambda>t. timestamp t < start1) ?T1)
                                  (filter (\<lambda>t. start1 \<le> timestamp t) ?T1)"
    by blast
  from valuation_of_stock[of ?T2 start2] r2 q
  obtain v2 where v2: "valuation_of start2 ?T2 = Inr v2"
    and o2: "opening_stock v2 = sum_list (map signed_quantity (filter (\<lambda>t. timestamp t < start2) ?T2))"
    by blast
  have "closing_stock v1 = sum_list (map signed_quantity ?T1)"
    unfolding c1 using r1 by (simp add: regular_closing_formula sum_list_split_timestamp)
  also have "\<dots> = sum_list (map signed_quantity
        (filter (\<lambda>t. inventory_id t = iid \<and> timestamp t \<le> end1) rows))"
    by (simp add: fetch_transactions_def sum_list_sort_key)
  also have "filter (\<lambda>t. inventory_id t = iid \<and> timestamp t \<le> end1) rows =
        filter (\<lambda>t. timestamp t < start2 \<and> inventory_id t = iid \<and> timestamp t \<le> end2) rows"
    using adjacent later by (intro filter_cong) auto
  also have "sum_list (map signed_quantity \<dots>) = opening_stock v2"
    unfolding o2 by (simp add: sum_filter_fetch_transactions)
  finally have "closing_stock v1 = opening_stock v2" .
  with v1 v2 show ?thesis
    by (simp add: calculate_periodic_wac_valuation_def)
qed

theorem closing_stock_is_next_opening_stock_witness:
  "list_all (\<lambda>t. inventory_id t = 1 \<longrightarrow> regular_entry t) spec_ledger
   \<and> (\<exists>v1 v2.
          calculate_periodic_wac_valuation spec_ledger 1 (jan 1) (jan 31) = Inr v1
        \<and> calculate_periodic_wac_valuation spec_ledger 1 (jan 31 + 1) (jan 60) = Inr v2
        \<and> closing_stock v1 = opening_stock v2)"
proof -
  have h: "list_all (\<lambda>t. inventory_id t = 1 \<longrightarrow> regular_entry t) spec_ledger"
    by (simp add: spec_ledger_def regular_entry_def)
  then have h1: "\<forall>t \<in> set spec_ledger. inventory_id t = 1 \<longrightarrow> regular_entry t"
    by (simp add: list_all_iff)
  have h2: "jan 31 + 1 = jan 31 + 1" by simp
  have h3: "jan 31 \<le> jan 60" by (simp add: jan_def)
  from closing_stock_is_next_opening_stock[OF h1 h2 h3, of "jan 1"] h show ?thesis by simp
qed

lemma third_location_first:
  "calculate_periodic_wac_valuation third_location_rows 1 0 10 =
     Inr \<lparr> opening_stock = 0, purchases = 100, adjustments = 0, hq_issues = \<bar>0\<bar>,
           jabi_issues = \<bar>0\<bar>, closing_stock = 100, period_wac = 20, total_value = 2000,
           cogs = 0 \<rparr>"
  unfolding calculate_periodic_wac_valuation_def
proof (rule valuation_of_eval)
  show "opening_balance (filter (\<lambda>t. timestamp t < 0) (fetch_transactions third_location_rows 1 10))
          = Inr (0, 0, 0)"
    by code_simp
  show "period_cost 0 0 (filter (\<lambda>t. 0 \<le> timestamp t) (fetch_transactions third_location_rows 1 10))
          = Inr (2000, 100)"
    by code_simp
  show "period_sums (filter (\<lambda>t. 0 \<le> timestamp t) (fetch_transactions third_location_rows 1 10))
          = Inr (100, 0, 0, 0, 0)"
    by code_simp
  show "(if (100::int) > 0 then dec_div 2000 (of_int 100) else 0) = 20" by code_simp
  show "(100::int) - (\<bar>0\<bar> + \<bar>0\<bar> + \<bar>0\<bar>) + 0 = 100" by simp
  show "dec_mul (of_int 100) 20 = 2000" by code_simp
  show "dec_mul (of_int (\<bar>0\<bar> + \<bar>0\<bar> + \<bar>0\<bar>)) 20 = 0" by simp
qed

lemma third_location_second:
  "calculate_periodic_wac_valuation third_location_rows 1 11 20 =
     Inr \<lparr> opening_stock = 70, purchases = 0, adjustments = 0, hq_issues = \<bar>0\<bar>,
           jabi_issues = \<bar>0\<bar>, closing_stock = 70, period_wac = 10, total_value = 700,
           cogs = 0 \<rparr>"
  unfolding calculate_periodic_wac_valuation_def
proof (rule valuation_of_eval)
  show "opening_balance (filter (\<lambda>t. timestamp t < 11) (fetch_transactions third_location_rows 1 20))
          = Inr (70, 700, 10)"
    by code_simp
  show "period_cost 700 70 (filter (\<lambda>t. 11 \<le> timestamp t) (fetch_transactions third_location_rows 1 20))
          = Inr (700, 70)"
    by code_simp
  show "period_sums (filter (\<lambda>t. 11 \<le> timestamp t) (fetch_transactions third_location_rows 1 20))
          = Inr (0, 0, 0, 0, 0)"
    by code_simp
  show "(if (70::int) > 0 then dec_div 700 (of_int 70) else 10) = 10" by code_simp
  show "(70::int) - (\<bar>0\<bar> + \<bar>0\<bar> + \<bar>0\<bar>) + 0 = 70" by simp
  show "dec_mul (of_int 70) 10 = 700" by code_simp
  show "dec_mul (of_int (\<bar>0\<bar> + \<bar>0\<bar> + \<bar>0\<bar>)) 10 = 0" by simp
qed

lemma boundary_first:
  "calculate_periodic_wac_valuation boundary_rows 1 0 10 =
     Inr \<lparr> opening_stock = 0, purchases = 200, adjustments = 0, hq_issues = \<bar>0\<bar>,
           jabi_issues = \<bar>0\<bar>, closing_stock = 200, period_wac = 15, total_value = 3000,
           cogs = 0 \<rparr>"
  unfolding calculate_periodic_wac_valuation_def
proof (rule valuation_of_eval)
  show "opening_balance (filter (\<lambda>t. timestamp t < 0) (fetch_transactions boundary_rows 1 10))
          = Inr (0, 0, 0)"
    by code_simp
  show "period_cost 0 0 (filter (\<lambda>t. 0 \<le> timestamp t) (fetch_transactions boundary_rows 1 10))
          = Inr (3000, 200)"
    by code_simp
  show "period_sums (filter (\<lambda>t. 0 \<le> timestamp t) (fetch_transactions boundary_rows 1 10))
          = Inr (200, 0, 0, 0, 0)"
    by code_simp
  show "(if (200::int) > 0 then dec_div 3000 (of_int 200) else 0) = 15" by code_simp
  show "(200::int) - (\<bar>0\<bar> + \<bar>0\<bar> + \<bar>0\<bar>) + 0 = 200" by simp
  show "dec_mul (of_int 200) 15 = 3000" by code_simp
  show "dec_mul (of_int (\<bar>0\<bar> + \<bar>0\<bar> + \<bar>0\<bar>)) 15 = 0" by simp
qed

lemma boundary_second:
  "calculate_periodic_wac_valuation boundary_rows 1 10 20 =
     Inr \<lparr> opening_stock = 100, purchases = 100, adjustments = 0, hq_issues = \<bar>0\<bar>,
           jabi_issues = \<bar>0\<bar>, closing_stock = 200, period_wac = 10, total_value = 2000,
           cogs = 0 \<rparr>"
  unfolding calculate_periodic_wac_valuation_def
proof (rule valuation_of_eval)
  show "opening_balance (filter (\<lambda>t. timestamp t < 10) (fetch_transactions boundary_rows 1 20))
          = Inr (100, 1000, 10)"
    by code_simp
  show "period_cost 1000 100 (filter (\<lambda>t. 10 \<le> timestamp t) (fetch_transactions boundary_rows 1 20))
          = Inr (2000, 200)"
    by code_simp
  show "period_sums (filter (\<lambda>t. 10 \<le> timestamp t) (fetch_transactions boundary_rows 1 20))
          = Inr (100, 0, 0, 0, 0)"
    by code_simp
  show "(if (200::int) > 0 then dec_div 2000 (of_int 200) else 10) = 10" by code_simp
  show "(200::int) - (\<bar>0\<bar> + \<bar>0\<bar> + \<bar>0\<bar>) + 0 = 200" by simp
  show "dec_mul (of_int 200) 10 = 2000" by code_simp
  show "dec_mul (of_int (\<bar>0\<bar> + \<bar>0\<bar> + \<bar>0\<bar>)) 10 = 0" by simp
qed

text \<open>
  Claim C2 as stated fails. An issue of 30 to a request located at Lagos is part of no
  issue total, so the window 0 to 10 closes with 100 while the window 11 to 20 opens
  with 70. And when the second window starts at the very end of the first (the windows
  0 to 10 and 10 to 20), a purchase of 100 stamped 10 is in the closing stock 200 of the
  first window, whose query includes its end, and not in the opening stock 100 of the
  second.
\<close>

theorem closing_stock_differs_from_next_opening_stock:
  "calculate_periodic_wac_valuation third_location_rows 1 0 10 =
     Inr \<lparr> opening_stock = 0, purchases = 100, adjustments = 0, hq_issues = 0,
           jabi_issues = 0, closing_stock = 100, period_wac = 20, total_value = 2000,
           cogs = 0 \<rparr>
   \<and> calculate_periodic_wac_valuation third_location_rows 1 11 20 =
     Inr \<lparr> opening_stock = 70, purchases = 0, adjustments = 0, hq_issues = 0,
           jabi_issues = 0, closing_stock = 70, period_wac = 10, total_value = 700,
           cogs = 0 \<rparr>
   \<and> calculate_periodic_wac_valuation boundary_rows 1 0 10 =
     Inr \<lparr> opening_stock = 0, purchases = 200, adjustments = 0, hq_issues = 0,
           jabi_issues = 0, closing_stock = 200, period_wac = 15, total_value = 3000,
           cogs = 0 \<rparr>
   \<and> calculate_periodic_wac_valuation boundary_rows 1 10 20 =
     Inr \<lparr> opening_stock = 100, purchases = 100, adjustments = 0, hq_issues = 0,
           jabi_issues = 0, closing_stock = 200, period_wac = 10, total_value = 2000,
           cogs = 0 \<rparr>"
  using third_location_first third_location_second boundary_first boundary_second by simp

section \<open>The size limit and the empty item set\<close>

text \<open>
  Claim C8. When the query resolves more than 5000 items, \<open>generate_report\<close> raises the
  HTTP 413 error, whatever the transaction table holds (no valuation is computed: the
  result is the same for every other table, also one on which valuations would raise);
  the error is distinct, since \<open>generate_report\<close> raises it in no other case. When the
  query resolves no item, it returns the triple of empty dictionaries.
\<close>

theorem size_limit_and_empty_set:
  "(5000 < length (item_query (inventory_rows db) end_dt flt)
      \<longrightarrow> generate_report db start_dt end_dt flt = Inl PayloadTooLarge
        \<and> generate_report (db\<lparr>transaction_rows := rows'\<rparr>) start_dt end_dt flt
            = Inl PayloadTooLarge)
   \<and> (generate_report db start_dt end_dt flt = Inl PayloadTooLarge
      \<longrightarrow> 5000 < length (item_query (inventory_rows db) end_dt flt))
   \<and> (item_query (inventory_rows db) end_dt flt = []
      \<longrightarrow> generate_report db start_dt end_dt flt = Inr ([], [], []))"
  by (auto simp: generate_report_def Let_def split: sum.splits if_splits dest: items_loop_error)

theorem size_limit_and_empty_set_witness:
  "5000 < length (item_query (inventory_rows big_db) 10 Map.empty)
   \<and> generate_report big_db 0 10 Map.empty = Inl PayloadTooLarge
   \<and> item_query (inventory_rows empty_db) 10 Map.empty = []
   \<and> generate_report empty_db 0 10 Map.empty = Inr ([], [], [])"
proof -
  have h1: "5000 < length (item_query (inventory_rows big_db) 10 Map.empty)"
    by (simp add: big_db_def item_query_def truthy_def pen_def)
  have h2: "item_query (inventory_rows empty_db) 10 Map.empty = []"
    by (simp add: empty_db_def item_query_def truthy_def)
  from size_limit_and_empty_set[of big_db 10 Map.empty 0 "[]"] h1
  have a: "generate_report big_db 0 10 Map.empty = Inl PayloadTooLarge" by blast
  from size_limit_and_empty_set[of empty_db 10 Map.empty 0 "[]"] h2
  have b: "generate_report empty_db 0 10 Map.empty = Inr ([], [], [])" by blast
  from h1 a h2 b show ?thesis by blast
qed

section \<open>The wrapper for the development environment\<close>

text \<open>
  Claim C9. \<open>generate_report_include_weekends\<close> returns what \<open>generate_report\<close> returns
  (the same triple or the same exception), so the request handler produces the same
  report in the development environment as in any other.
\<close>

theorem weekend_wrapper_is_generate_report:
  "generate_report_include_weekends db start_dt end_dt flt = generate_report db start_dt end_dt flt
   \<and> report_for_env env db start_dt end_dt flt = generate_report db start_dt end_dt flt"
  by (simp add: generate_report_include_weekends_def report_for_env_def)

section \<open>The filters that are read\<close>

lemma item_query_cong:
  assumes c: "f1 ''category_id'' = f2 ''category_id''" and i: "f1 ''item_id'' = f2 ''item_id''"
  shows "item_query table end_dt f1 = item_query table end_dt f2"
  unfolding item_query_def c i ..

text \<open>
  Claim C10. Two filter dictionaries that agree on the keys \<open>'category_id'\<close> and
  \<open>'item_id'\<close> give the same result; in particular the location the request handler
  stores in the dictionary has no influence.
\<close>

theorem report_ignores_other_filters:
  assumes "f1 ''category_id'' = f2 ''category_id''" and "f1 ''item_id'' = f2 ''item_id''"
  shows "generate_report db start_dt end_dt f1 = generate_report db start_dt end_dt f2
     \<and> generate_report db start_dt end_dt (form_filters c i loc)
       = generate_report db start_dt end_dt (form_filters c i loc')"
proof -
  have a: "generate_report db start_dt end_dt f1 = generate_report db start_dt end_dt f2"
    unfolding generate_report_def item_query_cong[OF assms] ..
  have "item_query (inventory_rows db) end_dt (form_filters c i loc)
        = item_query (inventory_rows db) end_dt (form_filters c i loc')"
    by (rule item_query_cong) (simp_all add: form_filters_def)
  then have b: "generate_report db start_dt end_dt (form_filters c i loc)
       = generate_report db start_dt end_dt (form_filters c i loc')"
    unfolding generate_report_def by simp
  from a b show ?thesis ..
qed

theorem report_ignores_other_filters_witness:
  "form_filters (Some 3) None (Some ''Jabi'') ''category_id''
     = form_filters (Some 3) None None ''category_id''
   \<and> form_filters (Some 3) None (Some ''Jabi'') ''item_id''
     = form_filters (Some 3) None None ''item_id''
   \<and> generate_report big_db 0 10 (form_filters (Some 3) None (Some ''Jabi''))
     = generate_report big_db 0 10 (form_filters (Some 3) None None)"
proof -
  have h1: "form_filters (Some 3) None (Some ''Jabi'') ''category_id''
     = form_filters (Some 3) None None ''category_id''"
    by (simp add: form_filters_def)
  have h2: "form_filters (Some 3) None (Some ''Jabi'') ''item_id''
     = form_filters (Some 3) None None ''item_id''"
    by (simp add: form_filters_def)
  from report_ignores_other_filters[OF h1 h2, of big_db 0 10] h1 h2 show ?thesis by blast
qed

section \<open>A valuation that raises\<close>

text \<open>
  Claim C3, as amended. \<open>generate_report\<close> has no handler around the valuation of an
  item: when the resolved set has at most 5000 items and the valuation of one of them
  raises while those of the items before it return, \<open>generate_report\<close> raises that same
  exception and returns no report (nothing is skipped and the remaining items are not
  valued). When the resolved set is not empty, has at most 5000 items and every
  valuation returns, the report lists, for every category in the order of first
  occurrence, the dictionaries of all the items of that category, in order.
\<close>

theorem valuation_failure_aborts_report:
  fixes db :: database and start_dt end_dt :: int and flt :: filters
  defines "items \<equiv> item_query (inventory_rows db) end_dt flt"
  defines "entries \<equiv> map (report_entry (transaction_rows db) start_dt end_dt) items"
  shows
    "(items = pre @ bad # post \<and> length items \<le> 5000
        \<and> (\<forall>item \<in> set pre. returns (transaction_rows db) start_dt end_dt item)
        \<and> calculate_periodic_wac_valuation (transaction_rows db) (inv_id bad) start_dt end_dt
            = Inl err
      \<longrightarrow> generate_report db start_dt end_dt flt = Inl err)
     \<and> (items \<noteq> [] \<and> length items \<le> 5000
        \<and> (\<forall>item \<in> set items. returns (transaction_rows db) start_dt end_dt item)
      \<longrightarrow> (\<exists>ct gt. generate_report db start_dt end_dt flt =
             Inr (map (\<lambda>c. (c, group c entries)) (first_seen (map fst entries)), ct, gt)))"
proof (intro conjI impI)
  assume a: "items = pre @ bad # post \<and> length items \<le> 5000
        \<and> (\<forall>item \<in> set pre. returns (transaction_rows db) start_dt end_dt item)
        \<and> calculate_periodic_wac_valuation (transaction_rows db) (inv_id bad) start_dt end_dt
            = Inl err"
  show "generate_report db start_dt end_dt flt = Inl err"
  proof (rule generate_report_raises)
    show "item_query (inventory_rows db) end_dt flt = pre @ bad # post"
      using a by (simp add: items_def)
    show "length (pre @ bad # post) \<le> 5000" using a by auto
    show "\<forall>item \<in> set pre. returns (transaction_rows db) start_dt end_dt item" using a by simp
    show "calculate_periodic_wac_valuation (transaction_rows db) (inv_id bad) start_dt end_dt
            = Inl err"
      using a by simp
  qed
next
  assume b: "items \<noteq> [] \<and> length items \<le> 5000
        \<and> (\<forall>item \<in> set items. returns (transaction_rows db) start_dt end_dt item)"
  have "generate_report db start_dt end_dt flt = Inr (report_of (grouped_state entries))"
    unfolding entries_def items_def
    by (rule generate_report_returns) (use b in \<open>simp_all add: items_def\<close>)
  moreover obtain rd ct gt where r: "report_of (grouped_state entries) = (rd, ct, gt)"
    by (cases "report_of (grouped_state entries)")
  moreover from r have "rd = map (\<lambda>c. (c, group c entries)) (first_seen (map fst entries))"
    using report_data_grouped[of entries] by simp
  ultimately show "\<exists>ct gt. generate_report db start_dt end_dt flt =
             Inr (map (\<lambda>c. (c, group c entries)) (first_seen (map fst entries)), ct, gt)"
    by simp
qed

lemma malformed_query: "item_query (inventory_rows malformed_db) 10 Map.empty = [] @ pen # [toner]"
  by (simp add: malformed_db_def item_query_def truthy_def pen_def toner_def)

lemma malformed_pen:
  "calculate_periodic_wac_valuation (transaction_rows malformed_db) (inv_id pen) 0 10
     = Inl TypeError"
  unfolding calculate_periodic_wac_valuation_def
proof (rule valuation_of_cost_raises)
  show "opening_balance (filter (\<lambda>t. timestamp t < 0)
          (fetch_transactions (transaction_rows malformed_db) (inv_id pen) 10)) = Inr (0, 0, 0)"
    by code_simp
  show "period_cost 0 0 (filter (\<lambda>t. 0 \<le> timestamp t)
          (fetch_transactions (transaction_rows malformed_db) (inv_id pen) 10)) = Inl TypeError"
    by code_simp
qed

lemma malformed_toner:
  "calculate_periodic_wac_valuation (transaction_rows malformed_db) (inv_id toner) 0 10 =
     Inr \<lparr> opening_stock = 0, purchases = 10, adjustments = 0, hq_issues = \<bar>0\<bar>,
           jabi_issues = \<bar>0\<bar>, closing_stock = 10, period_wac = 3, total_value = 30,
           cogs = 0 \<rparr>"
  unfolding calculate_periodic_wac_valuation_def
proof (rule valuation_of_eval)
  show "opening_balance (filter (\<lambda>t. timestamp t < 0)
          (fetch_transactions (transaction_rows malformed_db) (inv_id toner) 10)) = Inr (0, 0, 0)"
    by code_simp
  show "period_cost 0 0 (filter (\<lambda>t. 0 \<le> timestamp t)
          (fetch_transactions (transaction_rows malformed_db) (inv_id toner) 10)) = Inr (30, 10)"
    by code_simp
  show "period_sums (filter (\<lambda>t. 0 \<le> timestamp t)
          (fetch_transactions (transaction_rows malformed_db) (inv_id toner) 10))
          = Inr (10, 0, 0, 0, 0)"
    by code_simp
  show "(if (10::int) > 0 then dec_div 30 (of_int 10) else 0) = 3" by code_simp
  show "(10::int) - (\<bar>0\<bar> + \<bar>0\<bar> + \<bar>0\<bar>) + 0 = 10" by simp
  show "dec_mul (of_int 10) 3 = 30" by code_simp
  show "dec_mul (of_int (\<bar>0\<bar> + \<bar>0\<bar> + \<bar>0\<bar>)) 3 = 0" by simp
qed

text \<open>
  Claim C3 as stated fails. The resolved set is a pen and a toner; the pen's only ledger
  entry has no quantity, so its valuation raises \<open>TypeError\<close>; the toner can be valued;
  and \<open>generate_report\<close> raises \<open>TypeError\<close> instead of returning a report with the
  toner.
\<close>

theorem one_malformed_item_aborts_report:
  "item_query (inventory_rows malformed_db) 10 Map.empty = [pen, toner]
   \<and> calculate_periodic_wac_valuation (transaction_rows malformed_db) (inv_id pen) 0 10
       = Inl TypeError
   \<and> calculate_periodic_wac_valuation (transaction_rows malformed_db) (inv_id toner) 0 10 =
       Inr \<lparr> opening_stock = 0, purchases = 10, adjustments = 0, hq_issues = 0,
             jabi_issues = 0, closing_stock = 10, period_wac = 3, total_value = 30,
             cogs = 0 \<rparr>
   \<and> generate_report malformed_db 0 10 Map.empty = Inl TypeError"
proof -
  have "generate_report malformed_db 0 10 Map.empty = Inl TypeError"
    by (rule generate_report_raises[OF malformed_query _ _ malformed_pen]) simp_all
  with malformed_query malformed_pen malformed_toner show ?thesis by simp
qed

lemma stock_query: "item_query (inventory_rows stock_db) 10 Map.empty = [pen, toner]"
  by (simp add: stock_db_def item_query_def truthy_def pen_def toner_def)

lemma stock_returns:
  "list_all (returns (transaction_rows stock_db) 0 10) [pen, toner]"
  by (simp add: returns_if_present stock_db_def pen_def toner_def)

theorem valuation_failure_aborts_report_witness:
  "item_query (inventory_rows malformed_db) 10 Map.empty = [] @ pen # [toner]
   \<and> calculate_periodic_wac_valuation (transaction_rows malformed_db) (inv_id pen) 0 10
       = Inl TypeError
   \<and> generate_report malformed_db 0 10 Map.empty = Inl TypeError
   \<and> item_query (inventory_rows stock_db) 10 Map.empty = [pen, toner]
   \<and> list_all (returns (transaction_rows stock_db) 0 10) [pen, toner]
   \<and> (\<exists>ct gt. generate_report stock_db 0 10 Map.empty =
         Inr (map (\<lambda>c. (c, group c (map (report_entry (transaction_rows stock_db) 0 10)
                                      [pen, toner])))
                [''Stationery'', ''Consumables''], ct, gt))"
proof -
  have a: "generate_report malformed_db 0 10 Map.empty = Inl TypeError"
    using valuation_failure_aborts_report[of malformed_db 10 Map.empty "[]" pen "[toner]" 0 TypeError]
      malformed_query malformed_pen
    by simp
  have fs: "first_seen (map fst (map (report_entry (transaction_rows stock_db) 0 10) [pen, toner]))
            = [''Stationery'', ''Consumables'']"
    by (simp add: report_entry_def first_seen_def pen_def toner_def)
  have b: "\<exists>ct gt. generate_report stock_db 0 10 Map.empty =
         Inr (map (\<lambda>c. (c, group c (map (report_entry (transaction_rows stock_db) 0 10)
                                      [pen, toner])))
                [''Stationery'', ''Consumables''], ct, gt)"
    using valuation_failure_aborts_report[of stock_db 10 Map.empty "[]" pen "[]" 0 TypeError]
      stock_returns
    unfolding stock_query fs by (simp add: list_all_iff)
  from malformed_query malformed_pen a stock_query stock_returns b show ?thesis by blast
qed

section \<open>Totals of the report\<close>

lemma rounding_query:
  "item_query (inventory_rows rounding_db) 10 Map.empty = [pen, toner, stapler]"
  by (simp add: rounding_db_def item_query_def truthy_def pen_def toner_def stapler_def)

lemma rounding_returns:
  "list_all (returns (transaction_rows rounding_db) 0 10) [pen, toner, stapler]"
  by (simp add: returns_if_present rounding_db_def pen_def toner_def stapler_def)

lemma rounding_pen:
  "calculate_periodic_wac_valuation (transaction_rows rounding_db) (inv_id pen) 0 10 =
     Inr \<lparr> opening_stock = 0, purchases = 3, adjustments = 0, hq_issues = \<bar>- 2\<bar>,
           jabi_issues = \<bar>0\<bar>, closing_stock = 1,
           period_wac = 6666666666666666666666666667 / 10 ^ 27,
           total_value = 6666666666666666666666666667 / 10 ^ 27,
           cogs = 1333333333333333333333333333 / 10 ^ 26 \<rparr>"
  unfolding calculate_periodic_wac_valuation_def
proof (rule valuation_of_eval)
  show "opening_balance (filter (\<lambda>t. timestamp t < 0)
          (fetch_transactions (transaction_rows rounding_db) (inv_id pen) 10)) = Inr (0, 0, 0)"
    by code_simp
  show "period_cost 0 0 (filter (\<lambda>t. 0 \<le> timestamp t)
          (fetch_transactions (transaction_rows rounding_db) (inv_id pen) 10)) = Inr (20, 3)"
    by code_simp
  show "period_sums (filter (\<lambda>t. 0 \<le> timestamp t)
          (fetch_transactions (transaction_rows rounding_db) (inv_id pen) 10))
          = Inr (3, - 2, 0, 0, 0)"
    by code_simp
  show "(if (3::int) > 0 then dec_div 20 (of_int 3) else 0)
          = 6666666666666666666666666667 / 10 ^ 27"
    by code_simp
  show "(3::int) - (\<bar>- 2\<bar> + \<bar>0\<bar> + \<bar>0\<bar>) + 0 = 1" by simp
  show "dec_mul (of_int 1) (6666666666666666666666666667 / 10 ^ 27)
          = 6666666666666666666666666667 / 10 ^ 27"
    by code_simp
  show "dec_mul (of_int (\<bar>- 2\<bar> + \<bar>0\<bar> + \<bar>0\<bar>)) (6666666666666666666666666667 / 10 ^ 27)
          = 1333333333333333333333333333 / 10 ^ 26"
    by code_simp
qed

lemma rounding_stapler:
  "calculate_periodic_wac_valuation (transaction_rows rounding_db) (inv_id stapler) 0 10 =
     Inr \<lparr> opening_stock = 0, purchases = 3, adjustments = 0, hq_issues = \<bar>- 2\<bar>,
           jabi_issues = \<bar>0\<bar>, closing_stock = 1,
           period_wac = 6666666666666666666666666667 / 10 ^ 27,
           total_value = 6666666666666666666666666667 / 10 ^ 27,
           cogs = 1333333333333333333333333333 / 10 ^ 26 \<rparr>"
  unfolding calculate_periodic_wac_valuation_def
proof (rule valuation_of_eval)
  show "opening_balance (filter (\<lambda>t. timestamp t < 0)
          (fetch_transactions (transaction_rows rounding_db) (inv_id stapler) 10))
          = Inr (0, 0, 0)"
    by code_simp
  show "period_cost 0 0 (filter (\<lambda>t. 0 \<le> timestamp t)
          (fetch_transactions (transaction_rows rounding_db) (inv_id stapler) 10)) = Inr (20, 3)"
    by code_simp
  show "period_sums (filter (\<lambda>t. 0 \<le> timestamp t)
          (fetch_transactions (transaction_rows rounding_db) (inv_id stapler) 10))
          = Inr (3, - 2, 0, 0, 0)"
    by code_simp
  show "(if (3::int) > 0 then dec_div 20 (of_int 3) else 0)
          = 6666666666666666666666666667 / 10 ^ 27"
    by code_simp
  show "(3::int) - (\<bar>- 2\<bar> + \<bar>0\<bar> + \<bar>0\<bar>) + 0 = 1" by simp
  show "dec_mul (of_int 1) (6666666666666666666666666667 / 10 ^ 27)
          = 6666666666666666666666666667 / 10 ^ 27"
    by code_simp
  show "dec_mul (of_int (\<bar>- 2\<bar> + \<bar>0\<bar> + \<bar>0\<bar>)) (6666666666666666666666666667 / 10 ^ 27)
          = 1333333333333333333333333333 / 10 ^ 26"
    by code_simp
qed

lemma rounding_toner:
  "calculate_periodic_wac_valuation (transaction_rows rounding_db) (inv_id toner) 0 10 =
     Inr \<lparr> opening_stock = 0, purchases = 7, adjustments = 0, hq_issues = \<bar>0\<bar>,
           jabi_issues = \<bar>0\<bar>, closing_stock = 7, period_wac = 10, total_value = 70,
           cogs = 0 \<rparr>"
  unfolding calculate_periodic_wac_valuation_def
proof (rule valuation_of_eval)
  show "opening_balance (filter (\<lambda>t. timestamp t < 0)
          (fetch_transactions (transaction_rows rounding_db) (inv_id toner) 10)) = Inr (0, 0, 0)"
    by code_simp
  show "period_cost 0 0 (filter (\<lambda>t. 0 \<le> timestamp t)
          (fetch_transactions (transaction_rows rounding_db) (inv_id toner) 10)) = Inr (70, 7)"
    by code_simp
  show "period_sums (filter (\<lambda>t. 0 \<le> timestamp t)
          (fetch_transactions (transaction_rows rounding_db) (inv_id toner) 10))
          = Inr (7, 0, 0, 0, 0)"
    by code_simp
  show "(if (7::int) > 0 then dec_div 70 (of_int 7) else 0) = 10" by code_simp
  show "(7::int) - (\<bar>0\<bar> + \<bar>0\<bar> + \<bar>0\<bar>) + 0 = 7" by simp
  show "dec_mul (of_int 7) 10 = 70" by code_simp
  show "dec_mul (of_int (\<bar>0\<bar> + \<bar>0\<bar> + \<bar>0\<bar>)) 10 = 0" by code_simp
qed

lemma rounding_entries:
  "map (report_entry (transaction_rows rounding_db) 0 10) [pen, toner, stapler] =
     [(''Stationery'', make_item_report pen
         \<lparr> opening_stock = 0, purchases = 3, adjustments = 0, hq_issues = 2,
           jabi_issues = 0, closing_stock = 1,
           period_wac = 6666666666666666666666666667 / 10 ^ 27,
           total_value = 6666666666666666666666666667 / 10 ^ 27,
           cogs = 1333333333333333333333333333 / 10 ^ 26 \<rparr>),
      (''Consumables'', make_item_report toner
         \<lparr> opening_stock = 0, purchases = 7, adjustments = 0, hq_issues = 0,
           jabi_issues = 0, closing_stock = 7, period_wac = 10, total_value = 70,
           cogs = 0 \<rparr>),
      (''Stationery'', make_item_report stapler
         \<lparr> opening_stock = 0, purchases = 3, adjustments = 0, hq_issues = 2,
           jabi_issues = 0, closing_stock = 1,
           period_wac = 6666666666666666666666666667 / 10 ^ 27,
           total_value = 6666666666666666666666666667 / 10 ^ 27,
           cogs = 1333333333333333333333333333 / 10 ^ 26 \<rparr>)]"
  by (simp add: report_entry_def rounding_pen rounding_toner rounding_stapler
        del: power_numeral)
    (simp add: pen_def toner_def stapler_def)

lemma rounding_report:
  "generate_report rounding_db 0 10 Map.empty =
     Inr (report_of (grouped_state
            (map (report_entry (transaction_rows rounding_db) 0 10) [pen, toner, stapler])))"
  using generate_report_returns[of rounding_db 10 Map.empty 0] rounding_returns
  unfolding rounding_query by (simp add: list_all_iff)

lemma rounding_sums:
  "dec_sum [6666666666666666666666666667 / 10 ^ 27, 70, 6666666666666666666666666667 / 10 ^ 27]
     = 8333333333333333333333333334 / 10 ^ 26"
  "dec_sum [6666666666666666666666666667 / 10 ^ 27, 6666666666666666666666666667 / 10 ^ 27]
     = 1333333333333333333333333333 / 10 ^ 26"
  "dec_sum [70] = 70"
  "dec_add (1333333333333333333333333333 / 10 ^ 26) 70 = 8333333333333333333333333333 / 10 ^ 26"
  by code_simp+

text \<open>
  Claim C4, as stated, fails on two counts. The totals are sums in \<open>Decimal\<close> arithmetic,
  rounded to 28 digits after every addition, in the order of the items: for two items of
  the category Stationery with a total value of 6.666666666666666666666666667 each (20/3,
  one unit left) and, between them, an item of the category Consumables with a total
  value of 70, the grand total is 83.33333333333333333333333334, the two category totals
  are 13.33333333333333333333333333 and 70, and their sum is
  83.33333333333333333333333333. And the unit price, a numeric field of every item
  record, is not a key of the totals: it is summed nowhere.
\<close>

theorem grand_total_differs_from_category_totals:
  "grand_total ''total_value'' (generate_report rounding_db 0 10 Map.empty)
     = Some (8333333333333333333333333334 / 10 ^ 26)
   \<and> category_total ''Stationery'' ''total_value'' (generate_report rounding_db 0 10 Map.empty)
       = Some (1333333333333333333333333333 / 10 ^ 26)
   \<and> category_total ''Consumables'' ''total_value'' (generate_report rounding_db 0 10 Map.empty)
       = Some 70
   \<and> dec_add (1333333333333333333333333333 / 10 ^ 26) 70
       = 8333333333333333333333333333 / 10 ^ 26
   \<and> (1333333333333333333333333333 / 10 ^ 26 + 70 :: rat)
       = 8333333333333333333333333333 / 10 ^ 26
   \<and> (8333333333333333333333333334 / 10 ^ 26 :: rat) \<noteq> 8333333333333333333333333333 / 10 ^ 26
   \<and> map_of (make_item_report pen
         \<lparr> opening_stock = 0, purchases = 3, adjustments = 0, hq_issues = 2,
           jabi_issues = 0, closing_stock = 1,
           period_wac = 6666666666666666666666666667 / 10 ^ 27,
           total_value = 6666666666666666666666666667 / 10 ^ 27,
           cogs = 1333333333333333333333333333 / 10 ^ 26 \<rparr>) ''unit_price''
       = Some (PDec (6666666666666666666666666667 / 10 ^ 27))
   \<and> grand_total ''unit_price'' (generate_report rounding_db 0 10 Map.empty) = None
   \<and> category_total ''Stationery'' ''unit_price'' (generate_report rounding_db 0 10 Map.empty)
       = None"
proof -
  define es where "es = map (report_entry (transaction_rows rounding_db) 0 10) [pen, toner, stapler]"
  have cats: "first_seen (map fst es) = [''Stationery'', ''Consumables'']"
    unfolding es_def
    by (simp add: report_entry_def first_seen_def pen_def toner_def stapler_def)
  have rep: "generate_report rounding_db 0 10 Map.empty =
      Inr ([(''Stationery'', group ''Stationery'' es),
            (''Consumables'', group ''Consumables'' es)],
           [(''Stationery'', running_totals (group ''Stationery'' es)),
            (''Consumables'', running_totals (group ''Consumables'' es))],
           running_totals (map snd es))"
    unfolding rounding_report es_def[symmetric] report_of_grouped cats by simp
  have f_all: "map (field ''total_value'') (map snd es) =
      [6666666666666666666666666667 / 10 ^ 27, 70, 6666666666666666666666666667 / 10 ^ 27]"
    unfolding es_def rounding_entries by (simp add: field_make_item_report)
  have f_s: "map (field ''total_value'') (group ''Stationery'' es) =
      [6666666666666666666666666667 / 10 ^ 27, 6666666666666666666666666667 / 10 ^ 27]"
    unfolding es_def rounding_entries by (simp add: group_def field_make_item_report)
  have f_c: "map (field ''total_value'') (group ''Consumables'' es) = [70]"
    unfolding es_def rounding_entries by (simp add: group_def field_make_item_report)
  have tv: "map_of (running_totals rs) ''total_value''
              = Some (dec_sum (map (field ''total_value'') rs))" for rs
    by (simp add: map_of_running_totals totals_template_def)
  have up: "map_of (running_totals rs) ''unit_price'' = None" for rs
    by (simp add: map_of_running_totals totals_template_def)
  have ms: "map_of [(''Stationery'', X), (''Consumables'', Y)] ''Stationery'' = Some X"
    and mc: "map_of [(''Stationery'', X), (''Consumables'', Y)] ''Consumables'' = Some Y"
    for X Y :: totals
    by simp_all
  have g: "grand_total ''total_value'' (generate_report rounding_db 0 10 Map.empty)
     = Some (8333333333333333333333333334 / 10 ^ 26)"
    unfolding rep grand_total_def
    by (simp only: sum.case prod.case tv f_all rounding_sums)
  have s: "category_total ''Stationery'' ''total_value''
             (generate_report rounding_db 0 10 Map.empty)
       = Some (1333333333333333333333333333 / 10 ^ 26)"
    unfolding rep category_total_def
    by (simp only: sum.case prod.case option.case ms tv f_s rounding_sums)
  have c: "category_total ''Consumables'' ''total_value''
             (generate_report rounding_db 0 10 Map.empty) = Some 70"
    unfolding rep category_total_def
    by (simp only: sum.case prod.case option.case mc tv f_c rounding_sums)
  have u: "grand_total ''unit_price'' (generate_report rounding_db 0 10 Map.empty) = None"
    unfolding rep grand_total_def by (simp only: sum.case prod.case up)
  have us: "category_total ''Stationery'' ''unit_price''
              (generate_report rounding_db 0 10 Map.empty) = None"
    unfolding rep category_total_def by (simp only: sum.case prod.case option.case ms up)
  have r: "map_of (make_item_report pen
         \<lparr> opening_stock = 0, purchases = 3, adjustments = 0, hq_issues = 2,
           jabi_issues = 0, closing_stock = 1,
           period_wac = 6666666666666666666666666667 / 10 ^ 27,
           total_value = 6666666666666666666666666667 / 10 ^ 27,
           cogs = 1333333333333333333333333333 / 10 ^ 26 \<rparr>) ''unit_price''
       = Some (PDec (6666666666666666666666666667 / 10 ^ 27))"
    by (simp add: make_item_report_def)
  have e: "(1333333333333333333333333333 / 10 ^ 26 + 70 :: rat)
       = 8333333333333333333333333333 / 10 ^ 26"
    by simp
  have n: "(8333333333333333333333333334 / 10 ^ 26 :: rat)
             \<noteq> 8333333333333333333333333333 / 10 ^ 26"
    by simp
  from g s c rounding_sums(4) e n r u us show ?thesis by (intro conjI)
qed

text \<open>
  Claim C4, as amended. When the resolved set is not empty, has at most 5000 items and
  every valuation returns, \<open>generate_report\<close> returns the item records grouped by
  category, in the order of first occurrence, and for every key of the totals template
  (opening_stock, purchases, adjustments, hq_issues, jabi_issues, closing_stock and
  total_value: every numeric field of an item record but unit_price) the grand total is
  the running \<open>Decimal\<close> sum of that field over all item records, added in the order of
  the items and rounded to 28 digits after every addition, and the total of a category is
  the running \<open>Decimal\<close> sum over the records of that category. The fields other than
  total_value are integers. When the values of a field have at most \<open>p\<close> decimal places
  and the sum of their absolute values has at most 28 digits, no addition rounds: the
  grand total is the exact sum of the field over all item records, and so is the sum of
  the category totals. The totals have no key unit_price. Every category's total starts
  as a fresh copy of the zero template: the template, the grand totals and the totals of
  the categories are pairwise distinct objects, and the template is unchanged at the end.
\<close>

theorem totals_are_running_decimal_sums:
  fixes db :: database and start_dt end_dt :: int and flt :: filters and p :: nat
  defines "items \<equiv> item_query (inventory_rows db) end_dt flt"
  defines "entries \<equiv> map (report_entry (transaction_rows db) start_dt end_dt) items"
  defines "cats \<equiv> first_seen (map fst entries)"
  assumes ne: "items \<noteq> []" and n: "length items \<le> 5000"
    and ok: "\<forall>item \<in> set items. returns (transaction_rows db) start_dt end_dt item"
  shows
    "\<exists>st. items_loop (transaction_rows db) start_dt end_dt items initial_state = Inr st
      \<and> distinct (template_addr # grand_addr # map snd (category_totals st))
      \<and> deref (store st) template_addr = totals_template
      \<and> generate_report db start_dt end_dt flt =
          Inr (map (\<lambda>c. (c, group c entries)) cats,
               map (\<lambda>c. (c, running_totals (group c entries))) cats,
               running_totals (map snd entries))
      \<and> (\<forall>k \<in> set (map fst totals_template).
            map_of (running_totals (map snd entries)) k
              = Some (dec_sum (map (field k) (map snd entries)))
          \<and> (\<forall>c \<in> set cats.
                map_of (running_totals (group c entries)) k
                  = Some (dec_sum (map (field k) (group c entries))))
          \<and> (k \<noteq> ''total_value''
                \<longrightarrow> list_all (decimal_places 0) (map (field k) (map snd entries)))
          \<and> (exact_values p (map (field k) (map snd entries)) \<longrightarrow>
                dec_sum (map (field k) (map snd entries))
                  = sum_list (map (field k) (map snd entries))
              \<and> sum_list (map (\<lambda>c. dec_sum (map (field k) (group c entries))) cats)
                  = sum_list (map (field k) (map snd entries))))
      \<and> map_of (running_totals (map snd entries)) ''unit_price'' = None
      \<and> (\<forall>c \<in> set cats. map_of (running_totals (group c entries)) ''unit_price'' = None)"
proof -
  let ?st = "grouped_state entries"
  have loop: "items_loop (transaction_rows db) start_dt end_dt items initial_state = Inr ?st"
    unfolding initial_state_grouped entries_def using items_loop_grouped[OF ok, of "[]"] by simp
  have addr: "distinct (template_addr # grand_addr # map snd (category_totals ?st))"
    and tmpl: "deref (store ?st) template_addr = totals_template"
    using addresses_grouped[of entries] by simp_all
  have gen: "generate_report db start_dt end_dt flt =
          Inr (map (\<lambda>c. (c, group c entries)) cats,
               map (\<lambda>c. (c, running_totals (group c entries))) cats,
               running_totals (map snd entries))"
  proof -
    have "generate_report db start_dt end_dt flt = Inr (report_of ?st)"
      unfolding entries_def items_def
      by (rule generate_report_returns) (use ne n ok in \<open>simp_all add: items_def\<close>)
    then show ?thesis by (simp only: report_of_grouped cats_def)
  qed
  have keys: "\<forall>k \<in> set (map fst totals_template).
            map_of (running_totals (map snd entries)) k
              = Some (dec_sum (map (field k) (map snd entries)))
          \<and> (\<forall>c \<in> set cats.
                map_of (running_totals (group c entries)) k
                  = Some (dec_sum (map (field k) (group c entries))))
          \<and> (k \<noteq> ''total_value''
                \<longrightarrow> list_all (decimal_places 0) (map (field k) (map snd entries)))
          \<and> (exact_values p (map (field k) (map snd entries)) \<longrightarrow>
                dec_sum (map (field k) (map snd entries))
                  = sum_list (map (field k) (map snd entries))
              \<and> sum_list (map (\<lambda>c. dec_sum (map (field k) (group c entries))) cats)
                  = sum_list (map (field k) (map snd entries)))"
  proof (intro ballI conjI impI)
    fix k assume k: "k \<in> set (map fst totals_template)"
    show "map_of (running_totals (map snd entries)) k
              = Some (dec_sum (map (field k) (map snd entries)))"
      using k by (simp only: map_of_running_totals if_True)
    show "map_of (running_totals (group c entries)) k
                  = Some (dec_sum (map (field k) (group c entries)))" for c
      using k by (simp only: map_of_running_totals if_True)
    show "list_all (decimal_places 0) (map (field k) (map snd entries))"
      if "k \<noteq> ''total_value''"
    proof -
      have "decimal_places 0
              (field k (snd (report_entry (transaction_rows db) start_dt end_dt item)))"
        if "item \<in> set items" for item
      proof (rule field_decimal_places_int)
        from ok that show "returns (transaction_rows db) start_dt end_dt item" by simp
      qed (fact k, fact \<open>k \<noteq> ''total_value''\<close>)
      then show ?thesis by (simp add: list_all_iff entries_def)
    qed
    show "dec_sum (map (field k) (map snd entries))
                  = sum_list (map (field k) (map snd entries))"
      if "exact_values p (map (field k) (map snd entries))"
      using that by (rule dec_sum_exact)
    show "sum_list (map (\<lambda>c. dec_sum (map (field k) (group c entries))) cats)
                  = sum_list (map (field k) (map snd entries))"
      if ex: "exact_values p (map (field k) (map snd entries))"
    proof -
      have "map (\<lambda>c. dec_sum (map (field k) (group c entries))) cats =
            map (\<lambda>c. sum_list (map (field k) (group c entries))) cats"
        by (intro map_cong refl dec_sum_exact[of p] exact_values_group[OF ex])
      then show ?thesis unfolding cats_def by (simp only: sum_list_groups)
    qed
  qed
  have up: "map_of (running_totals rs) ''unit_price'' = None" for rs
    by (simp add: map_of_running_totals totals_template_def)
  from loop addr tmpl gen keys up show ?thesis by blast
qed

lemma stock_pen:
  "calculate_periodic_wac_valuation (transaction_rows stock_db) (inv_id pen) 0 10 =
     Inr \<lparr> opening_stock = 0, purchases = 4, adjustments = 0, hq_issues = \<bar>0\<bar>,
           jabi_issues = \<bar>0\<bar>, closing_stock = 4, period_wac = 2, total_value = 8,
           cogs = 0 \<rparr>"
  unfolding calculate_periodic_wac_valuation_def
proof (rule valuation_of_eval)
  show "opening_balance (filter (\<lambda>t. timestamp t < 0)
          (fetch_transactions (transaction_rows stock_db) (inv_id pen) 10)) = Inr (0, 0, 0)"
    by code_simp
  show "period_cost 0 0 (filter (\<lambda>t. 0 \<le> timestamp t)
          (fetch_transactions (transaction_rows stock_db) (inv_id pen) 10)) = Inr (8, 4)"
    by code_simp
  show "period_sums (filter (\<lambda>t. 0 \<le> timestamp t)
          (fetch_transactions (transaction_rows stock_db) (inv_id pen) 10))
          = Inr (4, 0, 0, 0, 0)"
    by code_simp
  show "(if (4::int) > 0 then dec_div 8 (of_int 4) else 0) = 2" by code_simp
  show "(4::int) - (\<bar>0\<bar> + \<bar>0\<bar> + \<bar>0\<bar>) + 0 = 4" by simp
  show "dec_mul (of_int 4) 2 = 8" by code_simp
  show "dec_mul (of_int (\<bar>0\<bar> + \<bar>0\<bar> + \<bar>0\<bar>)) 2 = 0" by code_simp
qed

lemma stock_toner:
  "calculate_periodic_wac_valuation (transaction_rows stock_db) (inv_id toner) 0 10 =
     Inr \<lparr> opening_stock = 0, purchases = 10, adjustments = 0, hq_issues = \<bar>0\<bar>,
           jabi_issues = \<bar>0\<bar>, closing_stock = 10, period_wac = 3, total_value = 30,
           cogs = 0 \<rparr>"
  unfolding calculate_periodic_wac_valuation_def
proof (rule valuation_of_eval)
  show "opening_balance (filter (\<lambda>t. timestamp t < 0)
          (fetch_transactions (transaction_rows stock_db) (inv_id toner) 10)) = Inr (0, 0, 0)"
    by code_simp
  show "period_cost 0 0 (filter (\<lambda>t. 0 \<le> timestamp t)
          (fetch_transactions (transaction_rows stock_db) (inv_id toner) 10)) = Inr (30, 10)"
    by code_simp
  show "period_sums (filter (\<lambda>t. 0 \<le> timestamp t)
          (fetch_transactions (transaction_rows stock_db) (inv_id toner) 10))
          = Inr (10, 0, 0, 0, 0)"
    by code_simp
  show "(if (10::int) > 0 then dec_div 30 (of_int 10) else 0) = 3" by code_simp
  show "(10::int) - (\<bar>0\<bar> + \<bar>0\<bar> + \<bar>0\<bar>) + 0 = 10" by simp
  show "dec_mul (of_int 10) 3 = 30" by code_simp
  show "dec_mul (of_int (\<bar>0\<bar> + \<bar>0\<bar> + \<bar>0\<bar>)) 3 = 0" by code_simp
qed

lemma stock_entries:
  "map (report_entry (transaction_rows stock_db) 0 10) [pen, toner] =
     [(''Stationery'', make_item_report pen
         \<lparr> opening_stock = 0, purchases = 4, adjustments = 0, hq_issues = 0,
           jabi_issues = 0, closing_stock = 4, period_wac = 2, total_value = 8,
           cogs = 0 \<rparr>),
      (''Consumables'', make_item_report toner
         \<lparr> opening_stock = 0, purchases = 10, adjustments = 0, hq_issues = 0,
           jabi_issues = 0, closing_stock = 10, period_wac = 3, total_value = 30,
           cogs = 0 \<rparr>)]"
  by (simp add: report_entry_def stock_pen stock_toner) (simp add: pen_def toner_def)

theorem totals_are_running_decimal_sums_witness:
  "item_query (inventory_rows stock_db) 10 Map.empty = [pen, toner]
   \<and> list_all (returns (transaction_rows stock_db) 0 10) [pen, toner]
   \<and> ''total_value'' \<in> set (map fst totals_template)
   \<and> map (field ''total_value'')
        (map snd (map (report_entry (transaction_rows stock_db) 0 10) [pen, toner])) = [8, 30]
   \<and> exact_values 0 [8, 30]
   \<and> (\<exists>st. items_loop (transaction_rows stock_db) 0 10 [pen, toner] initial_state = Inr st
          \<and> distinct (template_addr # grand_addr # map snd (category_totals st))
          \<and> deref (store st) template_addr = totals_template)
   \<and> grand_total ''total_value'' (generate_report stock_db 0 10 Map.empty) = Some 38
   \<and> category_total ''Stationery'' ''total_value'' (generate_report stock_db 0 10 Map.empty)
       = Some 8
   \<and> category_total ''Consumables'' ''total_value'' (generate_report stock_db 0 10 Map.empty)
       = Some 30
   \<and> grand_total ''unit_price'' (generate_report stock_db 0 10 Map.empty) = None"
proof -
  define es where "es = map (report_entry (transaction_rows stock_db) 0 10) [pen, toner]"
  have ne: "[pen, toner] \<noteq> []" by simp
  have n: "length [pen, toner] \<le> 5000" by simp
  have ok: "\<forall>item \<in> set [pen, toner]. returns (transaction_rows stock_db) 0 10 item"
    using stock_returns by (simp add: list_all_iff)
  have key: "''total_value'' \<in> set (map fst totals_template)"
    by (simp add: totals_template_def)
  have cats: "first_seen (map fst es) = [''Stationery'', ''Consumables'']"
    unfolding es_def by (simp add: report_entry_def first_seen_def pen_def toner_def)
  have f_all: "map (field ''total_value'') (map snd es) = [8, 30]"
    unfolding es_def stock_entries by (simp add: field_make_item_report)
  have f_s: "map (field ''total_value'') (group ''Stationery'' es) = [8]"
    unfolding es_def stock_entries by (simp add: group_def field_make_item_report)
  have f_c: "map (field ''total_value'') (group ''Consumables'' es) = [30]"
    unfolding es_def stock_entries by (simp add: group_def field_make_item_report)
  have ex: "exact_values 0 [8, 30]"
    by (simp add: exact_values_def decimal_places_def)
  have sums: "dec_sum [8] = 8" "dec_sum [30] = 30" by code_simp+
  have ms: "map_of [(''Stationery'', X), (''Consumables'', Y)] ''Stationery'' = Some X"
    and mc: "map_of [(''Stationery'', X), (''Consumables'', Y)] ''Consumables'' = Some Y"
    for X Y :: totals
    by simp_all
  note inst = totals_are_running_decimal_sums[where db = stock_db and end_dt = 10
      and flt = Map.empty and start_dt = 0 and p = 0, unfolded stock_query, OF ne n ok,
      folded es_def, unfolded cats]
  from inst obtain st where
    loop: "items_loop (transaction_rows stock_db) 0 10 [pen, toner] initial_state = Inr st"
    and dist: "distinct (template_addr # grand_addr # map snd (category_totals st))"
    and tmpl: "deref (store st) template_addr = totals_template"
    and rep: "generate_report stock_db 0 10 Map.empty =
          Inr (map (\<lambda>c. (c, group c es)) [''Stationery'', ''Consumables''],
               map (\<lambda>c. (c, running_totals (group c es))) [''Stationery'', ''Consumables''],
               running_totals (map snd es))"
    and keys: "\<forall>k \<in> set (map fst totals_template).
            map_of (running_totals (map snd es)) k
              = Some (dec_sum (map (field k) (map snd es)))
          \<and> (\<forall>c \<in> set [''Stationery'', ''Consumables''].
                map_of (running_totals (group c es)) k
                  = Some (dec_sum (map (field k) (group c es))))
          \<and> (k \<noteq> ''total_value''
                \<longrightarrow> list_all (decimal_places 0) (map (field k) (map snd es)))
          \<and> (exact_values 0 (map (field k) (map snd es)) \<longrightarrow>
                dec_sum (map (field k) (map snd es))
                  = sum_list (map (field k) (map snd es))
              \<and> sum_list (map (\<lambda>c. dec_sum (map (field k) (group c es)))
                    [''Stationery'', ''Consumables''])
                  = sum_list (map (field k) (map snd es)))"
    and up: "map_of (running_totals (map snd es)) ''unit_price'' = None"
    by (elim exE conjE)
  note k = keys[rule_format, OF key]
  from k have g0: "map_of (running_totals (map snd es)) ''total_value''
              = Some (dec_sum (map (field ''total_value'') (map snd es)))"
    by (rule conjunct1)
  from k have c0: "\<forall>c \<in> set [''Stationery'', ''Consumables''].
                map_of (running_totals (group c es)) ''total_value''
                  = Some (dec_sum (map (field ''total_value'') (group c es)))"
    by (elim conjE)
  from k have x0: "exact_values 0 (map (field ''total_value'') (map snd es)) \<longrightarrow>
                dec_sum (map (field ''total_value'') (map snd es))
                  = sum_list (map (field ''total_value'') (map snd es))
              \<and> sum_list (map (\<lambda>c. dec_sum (map (field ''total_value'') (group c es)))
                    [''Stationery'', ''Consumables''])
                  = sum_list (map (field ''total_value'') (map snd es))"
    by (elim conjE)
  from x0 ex have x1: "dec_sum [8, 30] = sum_list [8, 30 :: rat]"
    unfolding f_all by simp
  have g1: "map_of (running_totals (map snd es)) ''total_value'' = Some 38"
    using g0 x1 unfolding f_all by simp
  have s1: "map_of (running_totals (group ''Stationery'' es)) ''total_value'' = Some 8"
    using c0[rule_format, of "''Stationery''"] unfolding f_s sums by simp
  have c1: "map_of (running_totals (group ''Consumables'' es)) ''total_value'' = Some 30"
    using c0[rule_format, of "''Consumables''"] unfolding f_c sums by simp
  have rep': "generate_report stock_db 0 10 Map.empty =
          Inr ([(''Stationery'', group ''Stationery'' es),
                (''Consumables'', group ''Consumables'' es)],
               [(''Stationery'', running_totals (group ''Stationery'' es)),
                (''Consumables'', running_totals (group ''Consumables'' es))],
               running_totals (map snd es))"
    using rep by simp
  have g: "grand_total ''total_value'' (generate_report stock_db 0 10 Map.empty) = Some 38"
    unfolding rep' grand_total_def by (simp only: sum.case prod.case g1)
  have s: "category_total ''Stationery'' ''total_value''
             (generate_report stock_db 0 10 Map.empty) = Some 8"
    unfolding rep' category_total_def by (simp only: sum.case prod.case option.case ms s1)
  have c: "category_total ''Consumables'' ''total_value''
             (generate_report stock_db 0 10 Map.empty) = Some 30"
    unfolding rep' category_total_def by (simp only: sum.case prod.case option.case mc c1)
  have u: "grand_total ''unit_price'' (generate_report stock_db 0 10 Map.empty) = None"
    unfolding rep' grand_total_def by (simp only: sum.case prod.case up)
  have l: "\<exists>st. items_loop (transaction_rows stock_db) 0 10 [pen, toner] initial_state = Inr st
          \<and> distinct (template_addr # grand_addr # map snd (category_totals st))
          \<and> deref (store st) template_addr = totals_template"
    using loop dist tmpl by (intro exI conjI)
  from stock_query stock_returns key f_all[unfolded es_def] ex l g s c u
  show ?thesis by (intro conjI)
qed


end
